theory Spec2Isabelle
  imports Complex_Main "HOL-Library.Sublist" "HOL-Library.List_Lexorder" "HOL-Library.Char_ord"
begin

section \<open>Python values and exceptions\<close>

text \<open>
  The program is \<^verbatim>\<open>streamlit_v3.py\<close>: a loader of GraphML files
  (\<^verbatim>\<open>load_all_networks\<close>) and an encoder of one graph into the data of a Plotly figure
  (\<^verbatim>\<open>create_plotly_graph\<close>). Exceptions are values of \<open>py_error\<close>; a computation that
  can raise returns \<open>py_error + 'a\<close>, with \<open>Inl\<close> the exception.
  Python floats are idealised as HOL reals: rounding is not modelled.
\<close>

datatype py_error =
  KeyError | TypeError | ValueError | ZeroDivisionError | FileNotFoundError | NotADirectoryError

definition bindE :: "py_error + 'a \<Rightarrow> ('a \<Rightarrow> py_error + 'b) \<Rightarrow> py_error + 'b" where
  "bindE r k = (case r of Inl e \<Rightarrow> Inl e | Inr x \<Rightarrow> k x)"

text \<open>
  A node attribute read from GraphML is a \<^verbatim>\<open>str\<close>, an \<^verbatim>\<open>int\<close>, a \<^verbatim>\<open>float\<close> or a
  \<^verbatim>\<open>bool\<close> (the GraphML attribute types). A node identifier is a string
  (\<^verbatim>\<open>read_graphml\<close> keeps the default \<^verbatim>\<open>node_type=str\<close>).
\<close>

datatype attr_val = AStr string | AInt int | AFloat real | ABool bool

type_synonym node = string
type_synonym attrs = "string \<rightharpoonup> attr_val"

text \<open>\<^verbatim>\<open>d.get(key, default)\<close> and \<^verbatim>\<open>d[key]\<close> on a dict.\<close>

definition dict_get :: "('k \<rightharpoonup> 'v) \<Rightarrow> 'k \<Rightarrow> 'v \<Rightarrow> 'v" where
  "dict_get d key dflt = (case d key of None \<Rightarrow> dflt | Some v \<Rightarrow> v)"

definition dict_item :: "('k \<rightharpoonup> 'v) \<Rightarrow> 'k \<Rightarrow> py_error + 'v" where
  "dict_item d key = (case d key of None \<Rightarrow> Inl KeyError | Some v \<Rightarrow> Inr v)"

text \<open>
  Comparison of two attribute values with \<^verbatim>\<open><\<close> and \<^verbatim>\<open>>\<close>: numbers (and booleans, which
  are the integers 0 and 1) compare by value, strings lexicographically, and a string
  against a number raises \<^verbatim>\<open>TypeError\<close>.
\<close>

fun num_of :: "attr_val \<Rightarrow> real option" where
  "num_of (AStr s) = None"
| "num_of (AInt i) = Some (real_of_int i)"
| "num_of (AFloat r) = Some r"
| "num_of (ABool b) = Some (if b then 1 else 0)"

fun py_lt :: "attr_val \<Rightarrow> attr_val \<Rightarrow> py_error + bool" where
  "py_lt (AStr s) (AStr t) = Inr (s < t)"
| "py_lt a b =
     (case (num_of a, num_of b) of
        (Some x, Some y) \<Rightarrow> Inr (x < y)
      | _ \<Rightarrow> Inl TypeError)"

definition py_gt :: "attr_val \<Rightarrow> attr_val \<Rightarrow> py_error + bool" where
  "py_gt a b = py_lt b a"

definition int_lt :: "int \<Rightarrow> int \<Rightarrow> py_error + bool" where
  "int_lt a b = Inr (a < b)"

definition int_gt :: "int \<Rightarrow> int \<Rightarrow> py_error + bool" where
  "int_gt a b = Inr (a > b)"

text \<open>
  The builtins \<^verbatim>\<open>min\<close> and \<^verbatim>\<open>max\<close> on a list: \<^verbatim>\<open>ValueError\<close> on the empty list;
  otherwise the first element is the candidate and each later element \<open>x\<close> replaces the
  candidate \<open>m\<close> when \<open>x < m\<close> (for \<^verbatim>\<open>min\<close>) or \<open>x > m\<close> (for \<^verbatim>\<open>max\<close>). The comparison
  may raise.
\<close>

fun select_loop :: "('a \<Rightarrow> 'a \<Rightarrow> py_error + bool) \<Rightarrow> 'a \<Rightarrow> 'a list \<Rightarrow> py_error + 'a" where
  "select_loop cmp m [] = Inr m"
| "select_loop cmp m (x # xs) =
     (case cmp x m of
        Inl e \<Rightarrow> Inl e
      | Inr b \<Rightarrow> select_loop cmp (if b then x else m) xs)"

definition py_min :: "('a \<Rightarrow> 'a \<Rightarrow> py_error + bool) \<Rightarrow> 'a list \<Rightarrow> py_error + 'a" where
  "py_min lt xs = (case xs of [] \<Rightarrow> Inl ValueError | x # rest \<Rightarrow> select_loop lt x rest)"

definition py_max :: "('a \<Rightarrow> 'a \<Rightarrow> py_error + bool) \<Rightarrow> 'a list \<Rightarrow> py_error + 'a" where
  "py_max gt xs = (case xs of [] \<Rightarrow> Inl ValueError | x # rest \<Rightarrow> select_loop gt x rest)"

text \<open>True division \<^verbatim>\<open>a / b\<close> of two ints.\<close>

definition py_truediv :: "int \<Rightarrow> int \<Rightarrow> py_error + real" where
  "py_truediv a b = (if b = 0 then Inl ZeroDivisionError else Inr (real_of_int a / real_of_int b))"

text \<open>
  \<^verbatim>\<open>str\<close> of an int is its decimal numeral; of a bool \<^verbatim>\<open>True\<close> or \<^verbatim>\<open>False\<close>; of a string
  the string. The shortest round-trip numeral Python prints for a float is a parameter
  \<open>float_repr\<close>.
\<close>

function str_nat :: "nat \<Rightarrow> string" where
  "str_nat n = (if n < 10 then [''0123456789'' ! n] else str_nat (n div 10) @ [''0123456789'' ! (n mod 10)])"
  by pat_completeness auto
termination
  by (relation "measure id") auto

declare str_nat.simps [simp del]

definition str_int :: "int \<Rightarrow> string" where
  "str_int i = (if i < 0 then CHR ''-'' # str_nat (nat (- i)) else str_nat (nat i))"

fun py_str :: "(real \<Rightarrow> string) \<Rightarrow> attr_val \<Rightarrow> string" where
  "py_str float_repr (AStr s) = s"
| "py_str float_repr (AInt i) = str_int i"
| "py_str float_repr (AFloat r) = float_repr r"
| "py_str float_repr (ABool b) = (if b then ''True'' else ''False'')"

section \<open>Graphs\<close>

text \<open>
  A networkx graph as the program reads it: the node table in iteration order, each node
  with its attribute dict, and the edges in the order \<^verbatim>\<open>G.edges()\<close> yields them.
  networkx keeps node identifiers unique and adds the endpoints of every edge as nodes
  (\<open>wf_graph\<close>).
\<close>

record nx_graph =
  node_tbl :: "(node \<times> attrs) list"
  edge_list :: "(node \<times> node) list"

definition node_ids :: "nx_graph \<Rightarrow> node list" where
  "node_ids G = map fst (node_tbl G)"

definition wf_graph :: "nx_graph \<Rightarrow> bool" where
  "wf_graph G =
     (distinct (node_ids G) \<and>
      list_all (\<lambda>e. fst e \<in> set (node_ids G) \<and> snd e \<in> set (node_ids G)) (edge_list G))"

text \<open>
  \<^verbatim>\<open>G.degree\<close>: the number of edge ends at the node, so an edge from a node to itself
  counts twice (networkx's \<^verbatim>\<open>DegreeView\<close>: \<^verbatim>\<open>len(nbrs) + (n in nbrs)\<close>).
\<close>

definition degree_of :: "nx_graph \<Rightarrow> node \<Rightarrow> int" where
  "degree_of G n =
     int (length (filter (\<lambda>e. fst e = n) (edge_list G)) + length (filter (\<lambda>e. snd e = n) (edge_list G)))"

section \<open>Computations on a graph object\<close>

text \<open>
  \<^verbatim>\<open>create_plotly_graph\<close> receives a reference to a mutable graph object. A computation
  over a state \<open>'s\<close> takes the state and returns its result (or the exception raised) and
  the state it leaves behind.
\<close>

type_synonym ('s, 'a) prog = "'s \<Rightarrow> (py_error + 'a) \<times> 's"

definition returnM :: "'a \<Rightarrow> ('s, 'a) prog" where
  "returnM x = (\<lambda>s. (Inr x, s))"

definition liftE :: "py_error + 'a \<Rightarrow> ('s, 'a) prog" where
  "liftE r = (\<lambda>s. (r, s))"

definition getsM :: "('s \<Rightarrow> 'a) \<Rightarrow> ('s, 'a) prog" where
  "getsM f = (\<lambda>s. (Inr (f s), s))"

definition bindM :: "('s, 'a) prog \<Rightarrow> ('a \<Rightarrow> ('s, 'b) prog) \<Rightarrow> ('s, 'b) prog" where
  "bindM m k = (\<lambda>s. case m s of (Inl e, s') \<Rightarrow> (Inl e, s') | (Inr x, s') \<Rightarrow> k x s')"

text \<open>
  The reads of networkx the encoder uses. \<^verbatim>\<open>nx.spring_layout\<close> is a parameter
  \<open>spring_layout\<close>: it is given the graph, \<open>k\<close>, the iteration count and the seed, and
  returns a dict from node to position. What the routine computes from them (the random
  start it draws from the seed, the floating-point iterations) is networkx's and is not
  modelled.
\<close>

type_synonym layout = "node \<rightharpoonup> real \<times> real"
type_synonym layout_fn = "nx_graph \<Rightarrow> real \<Rightarrow> nat \<Rightarrow> nat \<Rightarrow> layout"

definition nx_spring_layout :: "layout_fn \<Rightarrow> real \<Rightarrow> nat \<Rightarrow> nat \<Rightarrow> (nx_graph, layout) prog" where
  "nx_spring_layout spring_layout k iterations seed = getsM (\<lambda>G. spring_layout G k iterations seed)"

definition nx_degree :: "(nx_graph, (node \<times> int) list) prog" where
  "nx_degree = getsM (\<lambda>G. map (\<lambda>n. (n, degree_of G n)) (node_ids G))"

definition nx_degree_item :: "node \<Rightarrow> (nx_graph, int) prog" where
  "nx_degree_item n = (\<lambda>G. (if n \<in> set (node_ids G) then Inr (degree_of G n) else Inl KeyError, G))"

definition nx_nodes :: "(nx_graph, node list) prog" where
  "nx_nodes = getsM node_ids"

definition nx_nodes_item :: "node \<Rightarrow> (nx_graph, attrs) prog" where
  "nx_nodes_item n = (\<lambda>G. (dict_item (map_of (node_tbl G)) n, G))"

definition nx_edges :: "(nx_graph, (node \<times> node) list) prog" where
  "nx_edges = getsM edge_list"

section \<open>The encoder: create\_plotly\_graph\<close>

text \<open>The five lists the node loop appends to (lines 56 to 60).\<close>

record node_lists =
  node_x :: "real list"
  node_y :: "real list"
  node_text :: "string list"
  node_sizes :: "real list"
  node_colors :: "attr_val list"

text \<open>
  The data of the returned figure: the edge trace's coordinates (\<open>None\<close> is the Python
  \<^verbatim>\<open>None\<close> that ends a segment) and the node trace's coordinates, hover texts and
  marker. The constant styling arguments are left out, and \<^verbatim>\<open>go.Scatter\<close> and
  \<^verbatim>\<open>go.Figure\<close> are taken to build the figure from their arguments: what plotly itself
  checks about them is outside the model.
\<close>

record figure =
  edge_trace_x :: "real option list"
  edge_trace_y :: "real option list"
  node_trace_x :: "real list"
  node_trace_y :: "real list"
  hovertext :: "string list"
  marker_size :: "real list"
  marker_color :: "attr_val list"
  marker_cmin :: attr_val
  marker_cmax :: attr_val

text \<open>Lines 68 to 76: the minimum degree and the degree range used for sizing.\<close>

definition degree_bounds :: "int list \<Rightarrow> py_error + int \<times> int" where
  "degree_bounds raw_degrees =
     (if length raw_degrees > 0 then
        bindE (py_min int_lt raw_degrees) (\<lambda>min_deg.
        bindE (py_max int_gt raw_degrees) (\<lambda>max_deg.
          let degree_range = max_deg - min_deg in
          Inr (min_deg, if degree_range = 0 then 1 else degree_range)))
      else Inr (0, 1))"

text \<open>Lines 100 to 104: the hover text of one node.\<close>

definition hover_info :: "(real \<Rightarrow> string) \<Rightarrow> node \<Rightarrow> int \<Rightarrow> attr_val \<Rightarrow> string" where
  "hover_info float_repr n degree_count community_id =
     ''<b>'' @ n @ ''</b><br>'' @
     ''Degree: '' @ str_int degree_count @ ''<br>'' @
     ''Community ID: '' @ py_str float_repr community_id"

text \<open>Lines 79 to 105: the loop over \<^verbatim>\<open>nx_graph.nodes()\<close>.\<close>

fun node_loop ::
  "(real \<Rightarrow> string) \<Rightarrow> layout \<Rightarrow> int \<Rightarrow> int \<Rightarrow> node list \<Rightarrow> node_lists \<Rightarrow> (nx_graph, node_lists) prog" where
  "node_loop float_repr pos min_deg degree_range [] acc = returnM acc"
| "node_loop float_repr pos min_deg degree_range (n # rest) acc =
     bindM (liftE (dict_item pos n)) (\<lambda>(x, y).
     bindM (nx_nodes_item n) (\<lambda>node_data.
     bindM (nx_degree_item n) (\<lambda>degree_count.
     let community_id = dict_get node_data ''community_id'' (AInt 0) in
     bindM (liftE (py_truediv (degree_count - min_deg) degree_range)) (\<lambda>normalized_size.
     let final_size = 10 + (normalized_size * 40) in
     node_loop float_repr pos min_deg degree_range rest
       (acc\<lparr>node_x := node_x acc @ [x],
            node_y := node_y acc @ [y],
            node_sizes := node_sizes acc @ [final_size],
            node_colors := node_colors acc @ [community_id],
            node_text := node_text acc @ [hover_info float_repr n degree_count community_id]\<rparr>)))))"

text \<open>Lines 111 to 115: the loop over \<^verbatim>\<open>nx_graph.edges()\<close>.\<close>

fun edge_loop ::
  "layout \<Rightarrow> (node \<times> node) list \<Rightarrow> real option list \<times> real option list \<Rightarrow>
   py_error + real option list \<times> real option list" where
  "edge_loop pos [] acc = Inr acc"
| "edge_loop pos (edge # rest) (edge_x, edge_y) =
     bindE (dict_item pos (fst edge)) (\<lambda>(x0, y0).
     bindE (dict_item pos (snd edge)) (\<lambda>(x1, y1).
     edge_loop pos rest (edge_x @ [Some x0, Some x1, None], edge_y @ [Some y0, Some y1, None])))"

text \<open>Lines 136 and 137: the bounds of the colour scale.\<close>

definition color_bounds :: "attr_val list \<Rightarrow> py_error + attr_val \<times> attr_val" where
  "color_bounds colors =
     bindE (if colors \<noteq> [] then py_min py_lt colors else Inr (AInt 0)) (\<lambda>cmin.
     bindE (if colors \<noteq> [] then py_max py_gt colors else Inr (AInt 1)) (\<lambda>cmax.
     Inr (cmin, cmax)))"

text \<open>
  Lines 46 to 162. The graph object \<^verbatim>\<open>nx_graph\<close> is the state of the computation; the
  display name is not used.
\<close>

definition create_plotly_graph ::
  "layout_fn \<Rightarrow> (real \<Rightarrow> string) \<Rightarrow> string \<Rightarrow> (nx_graph, figure) prog" where
  "create_plotly_graph spring_layout float_repr network_name =
     bindM (nx_spring_layout spring_layout (3 / 10) 50 42) (\<lambda>pos.
     bindM nx_degree (\<lambda>degree_view.
     let raw_degrees = map snd degree_view in
     bindM (liftE (degree_bounds raw_degrees)) (\<lambda>(min_deg, degree_range).
     bindM nx_nodes (\<lambda>nodes.
     bindM (node_loop float_repr pos min_deg degree_range nodes
              \<lparr>node_x = [], node_y = [], node_text = [], node_sizes = [], node_colors = []\<rparr>) (\<lambda>acc.
     bindM nx_edges (\<lambda>edges.
     bindM (liftE (edge_loop pos edges ([], []))) (\<lambda>(edge_x, edge_y).
     bindM (liftE (color_bounds (node_colors acc))) (\<lambda>(cmin, cmax).
     returnM \<lparr>edge_trace_x = edge_x, edge_trace_y = edge_y,
              node_trace_x = node_x acc, node_trace_y = node_y acc,
              hovertext = node_text acc,
              marker_size = node_sizes acc,
              marker_color = node_colors acc,
              marker_cmin = cmin, marker_cmax = cmax\<rparr>))))))))"

section \<open>The loader: load\_all\_networks\<close>

text \<open>
  The file system is a parameter: a path names a directory (with the names
  \<^verbatim>\<open>os.listdir\<close> returns), some other file, or nothing. \<^verbatim>\<open>os.path.join\<close> is the POSIX one.
\<close>

datatype fs_node = Directory "string list" | RegularFile

type_synonym filesystem = "string \<rightharpoonup> fs_node"

definition os_path_exists :: "filesystem \<Rightarrow> string \<Rightarrow> bool" where
  "os_path_exists fs p = (fs p \<noteq> None)"

definition os_listdir :: "filesystem \<Rightarrow> string \<Rightarrow> py_error + string list" where
  "os_listdir fs p =
     (case fs p of
        None \<Rightarrow> Inl FileNotFoundError
      | Some RegularFile \<Rightarrow> Inl NotADirectoryError
      | Some (Directory names) \<Rightarrow> Inr names)"

definition os_path_join :: "string \<Rightarrow> string \<Rightarrow> string" where
  "os_path_join a b =
     (if prefix ''/'' b then b
      else if a = [] \<or> suffix ''/'' a then a @ b
      else a @ ''/'' @ b)"

definition py_endswith :: "string \<Rightarrow> string \<Rightarrow> bool" where
  "py_endswith s suf = suffix suf s"

text \<open>
  \<^verbatim>\<open>s.replace(old, new)\<close>: every occurrence of \<open>old\<close> in \<open>s\<close>, found from the left and
  not overlapping, is replaced by \<open>new\<close>.
\<close>

function str_replace :: "string \<Rightarrow> string \<Rightarrow> string \<Rightarrow> string" where
  "str_replace s old new =
     (if old = [] then new @ concat (map (\<lambda>c. c # new) s)
      else if s = [] then []
      else if prefix old s then new @ str_replace (drop (length old) s) old new
      else hd s # str_replace (tl s) old new)"
  by pat_completeness auto
termination
  by (relation "measure (\<lambda>(s, old, new). length s)") auto

declare str_replace.simps [simp del]

text \<open>
  Lines 34 to 36, on the attribute dict of one node. \<^verbatim>\<open>float\<close> on a string is a parameter
  \<open>py_float\<close>: \<open>None\<close> when it raises \<^verbatim>\<open>ValueError\<close>, which the bare \<^verbatim>\<open>except\<close> swallows.
\<close>

definition clean_size :: "(string \<Rightarrow> real option) \<Rightarrow> attrs \<Rightarrow> attrs" where
  "clean_size py_float data =
     (case data ''size'' of
        Some (AStr s) \<Rightarrow>
          (case py_float s of
             Some r \<Rightarrow> data(''size'' \<mapsto> AFloat r)
           | None \<Rightarrow> data)
      | _ \<Rightarrow> data)"

text \<open>
  Lines 32 to 36: \<^verbatim>\<open>G.nodes(data=True)\<close> yields each node with its own attribute dict, so
  the assignment to \<^verbatim>\<open>data['size']\<close> changes the graph.
\<close>

definition clean_attributes :: "(string \<Rightarrow> real option) \<Rightarrow> nx_graph \<Rightarrow> nx_graph" where
  "clean_attributes py_float G =
     G\<lparr>node_tbl := map (\<lambda>(n, data). (n, clean_size py_float data)) (node_tbl G)\<rparr>"

text \<open>
  Lines 25 to 41. \<^verbatim>\<open>nx.read_graphml\<close> is a parameter \<open>read_graphml\<close>: given the path it
  returns the graph, or \<open>Inl msg\<close> when it raises an exception \<open>e\<close> with \<open>str(e) = msg\<close>. The
  state of the loop is the dict built so far and the lines printed so far.
\<close>

text \<open>Line 38: the key of a file in the result.\<close>

definition network_name_of :: "string \<Rightarrow> string" where
  "network_name_of filename = str_replace filename ''.graphml'' []"

record loader_state =
  networks_dict :: "string \<rightharpoonup> nx_graph"
  printed :: "string list"

fun load_loop ::
  "(string \<Rightarrow> string + nx_graph) \<Rightarrow> (string \<Rightarrow> real option) \<Rightarrow> string \<Rightarrow> string list \<Rightarrow>
   loader_state \<Rightarrow> loader_state" where
  "load_loop read_graphml py_float folder_path [] st = st"
| "load_loop read_graphml py_float folder_path (filename # rest) st =
     load_loop read_graphml py_float folder_path rest
       (if py_endswith filename ''.graphml'' then
          (case read_graphml (os_path_join folder_path filename) of
             Inr G \<Rightarrow>
               st\<lparr>networks_dict :=
                    (networks_dict st)(network_name_of filename \<mapsto> clean_attributes py_float G)\<rparr>
           | Inl msg \<Rightarrow>
               st\<lparr>printed := printed st @ [''Error loading '' @ filename @ '': '' @ msg]\<rparr>)
        else st)"

text \<open>
  The result is the returned value (or the exception that escapes) and the lines
  printed. Python's \<^verbatim>\<open>None\<close> is \<open>None\<close>; a returned dict \<open>d\<close> is \<open>Some d\<close>. The cache
  decorator is not modelled: this is the first call for a folder.
\<close>

definition load_all_networks ::
  "filesystem \<Rightarrow> (string \<Rightarrow> string + nx_graph) \<Rightarrow> (string \<Rightarrow> real option) \<Rightarrow> string \<Rightarrow>
   (py_error + (string \<rightharpoonup> nx_graph) option) \<times> string list" where
  "load_all_networks fs read_graphml py_float folder_path =
     (if \<not> os_path_exists fs folder_path then (Inr None, [])
      else
        case os_listdir fs folder_path of
          Inl e \<Rightarrow> (Inl e, [])
        | Inr filenames \<Rightarrow>
            let st = load_loop read_graphml py_float folder_path filenames
                       \<lparr>networks_dict = Map.empty, printed = []\<rparr>
            in (Inr (Some (networks_dict st)), printed st))"

section \<open>Notions the properties are stated with\<close>

text \<open>A computation that leaves every state as it found it.\<close>

definition read_only :: "('s, 'a) prog \<Rightarrow> bool" where
  "read_only m = (\<forall>s. snd (m s) = s)"

text \<open>The colour value of a node: its \<^verbatim>\<open>community_id\<close>, 0 when it has none.\<close>

definition community_of :: "nx_graph \<Rightarrow> node \<Rightarrow> attr_val" where
  "community_of G n = dict_get (the (map_of (node_tbl G) n)) ''community_id'' (AInt 0)"

definition is_numeric :: "attr_val \<Rightarrow> bool" where
  "is_numeric v = (num_of v \<noteq> None)"

text \<open>
  The layout the encoder computes for a graph (line 53), and the property that it gives
  every node of the graph a position, as \<^verbatim>\<open>nx.spring_layout\<close> does.
\<close>

definition layout_of :: "layout_fn \<Rightarrow> nx_graph \<Rightarrow> layout" where
  "layout_of spring_layout G = spring_layout G (3 / 10) 50 42"

definition layout_covers :: "layout_fn \<Rightarrow> nx_graph \<Rightarrow> bool" where
  "layout_covers spring_layout G = list_all (\<lambda>n. layout_of spring_layout G n \<noteq> None) (node_ids G)"

text \<open>
  The size in pixels as the specification words it: \<open>10 + 40 * (degree - minDeg) / range\<close>,
  with \<open>minDeg\<close> and \<open>maxDeg\<close> the least and greatest degree over all nodes and \<open>range\<close>
  their difference, 1 when the difference is 0.
\<close>

definition min_degree :: "nx_graph \<Rightarrow> int" where
  "min_degree G = Min (degree_of G ` set (node_ids G))"

definition max_degree :: "nx_graph \<Rightarrow> int" where
  "max_degree G = Max (degree_of G ` set (node_ids G))"

definition spec_range :: "nx_graph \<Rightarrow> int" where
  "spec_range G = (if max_degree G - min_degree G = 0 then 1 else max_degree G - min_degree G)"

definition spec_pixel_size :: "nx_graph \<Rightarrow> node \<Rightarrow> real" where
  "spec_pixel_size G n =
     10 + 40 * real_of_int (degree_of G n - min_degree G) / real_of_int (spec_range G)"

text \<open>
  The number of edges of the edge list that touch a node, each edge counted once, and
  the number of its edges from the node to itself.
\<close>

definition incident_edges :: "nx_graph \<Rightarrow> node \<Rightarrow> int" where
  "incident_edges G n = int (length (filter (\<lambda>e. fst e = n \<or> snd e = n) (edge_list G)))"

definition self_loops :: "nx_graph \<Rightarrow> node \<Rightarrow> int" where
  "self_loops G n = int (length (filter (\<lambda>e. fst e = n \<and> snd e = n) (edge_list G)))"

text \<open>A file name with its last eight characters, the extension, taken off.\<close>

definition strip_extension :: "string \<Rightarrow> string" where
  "strip_extension filename = take (length filename - length ''.graphml'') filename"

text \<open>The extension occurs in the name only as its ending.\<close>

definition extension_only_at_end :: "string \<Rightarrow> bool" where
  "extension_only_at_end filename =
     (suffix ''.graphml'' filename \<and>
      list_all (\<lambda>i. \<not> prefix ''.graphml'' (drop i filename)) [0..<length filename - length ''.graphml''])"

text \<open>The files of a listing the loader reads, and those it reads with success.\<close>

definition graph_files :: "string list \<Rightarrow> string list" where
  "graph_files filenames = filter (\<lambda>f. py_endswith f ''.graphml'') filenames"

definition parses :: "(string \<Rightarrow> string + nx_graph) \<Rightarrow> string \<Rightarrow> string \<Rightarrow> bool" where
  "parses read_graphml folder_path filename =
     (case read_graphml (os_path_join folder_path filename) of Inl msg \<Rightarrow> False | Inr G \<Rightarrow> True)"

text \<open>
  The colour values of a graph are numbers, as the specification's data model has them
  (\<^verbatim>\<open>community_id\<close>: integer or numeric category).
\<close>

definition colors_numeric :: "nx_graph \<Rightarrow> bool" where
  "colors_numeric G = list_all is_numeric (map (community_of G) (node_ids G))"

text \<open>The three entries one edge adds to each coordinate list of the edge trace.\<close>

definition segment_x :: "layout \<Rightarrow> node \<times> node \<Rightarrow> real option list" where
  "segment_x pos e = [Some (fst (the (pos (fst e)))), Some (fst (the (pos (snd e)))), None]"

definition segment_y :: "layout \<Rightarrow> node \<times> node \<Rightarrow> real option list" where
  "segment_y pos e = [Some (snd (the (pos (fst e)))), Some (snd (the (pos (snd e)))), None]"

section \<open>Example inputs\<close>

text \<open>
  A layout routine that places each node of the graph by the length of its name, and a
  float printer; a star, a triangle in two versions that differ only in stored attributes,
  a node with an edge to itself, and the graph without nodes.
\<close>

definition name_layout :: layout_fn where
  "name_layout G k iterations seed =
     (\<lambda>n. if n \<in> set (node_ids G) then Some (real (length n), 0) else None)"

definition example_repr :: "real \<Rightarrow> string" where
  "example_repr r = ''0.5''"

definition star :: nx_graph where
  "star =
     \<lparr>node_tbl = [(''hub'', [''community_id'' \<mapsto> AInt 1]), (''a'', Map.empty), (''b'', Map.empty),
                  (''c'', Map.empty), (''d'', Map.empty)],
      edge_list = [(''hub'', ''a''), (''hub'', ''b''), (''hub'', ''c''), (''hub'', ''d'')]\<rparr>"

definition star_figure :: figure where
  "star_figure =
     \<lparr>edge_trace_x = [Some 3, Some 1, None, Some 3, Some 1, None, Some 3, Some 1, None, Some 3, Some 1, None],
      edge_trace_y = [Some 0, Some 0, None, Some 0, Some 0, None, Some 0, Some 0, None, Some 0, Some 0, None],
      node_trace_x = [3, 1, 1, 1, 1],
      node_trace_y = [0, 0, 0, 0, 0],
      hovertext =
        [''<b>hub</b><br>Degree: 4<br>Community ID: 1'', ''<b>a</b><br>Degree: 1<br>Community ID: 0'',
         ''<b>b</b><br>Degree: 1<br>Community ID: 0'', ''<b>c</b><br>Degree: 1<br>Community ID: 0'',
         ''<b>d</b><br>Degree: 1<br>Community ID: 0''],
      marker_size = [50, 10, 10, 10, 10],
      marker_color = [AInt 1, AInt 0, AInt 0, AInt 0, AInt 0],
      marker_cmin = AInt 0, marker_cmax = AInt 1\<rparr>"

definition triangle :: nx_graph where
  "triangle =
     \<lparr>node_tbl = [(''a'', [''community_id'' \<mapsto> AInt 2, ''degree'' \<mapsto> AFloat (9 / 10)]),
                  (''b'', [''community_id'' \<mapsto> AInt 2, ''degree'' \<mapsto> AFloat (1 / 10)]),
                  (''c'', [''degree'' \<mapsto> AFloat (1 / 2)])],
      edge_list = [(''a'', ''b''), (''b'', ''c''), (''a'', ''c'')]\<rparr>"

definition triangle_restored :: nx_graph where
  "triangle_restored =
     \<lparr>node_tbl = [(''a'', [''community_id'' \<mapsto> AInt 2, ''degree'' \<mapsto> AInt 7, ''centrality'' \<mapsto> AFloat 1]),
                  (''b'', [''community_id'' \<mapsto> AInt 2, ''degree'' \<mapsto> AInt 0]),
                  (''c'', [''centrality'' \<mapsto> AStr ''high''])],
      edge_list = [(''a'', ''b''), (''b'', ''c''), (''a'', ''c'')]\<rparr>"

definition triangle_figure :: figure where
  "triangle_figure =
     \<lparr>edge_trace_x = [Some 1, Some 1, None, Some 1, Some 1, None, Some 1, Some 1, None],
      edge_trace_y = [Some 0, Some 0, None, Some 0, Some 0, None, Some 0, Some 0, None],
      node_trace_x = [1, 1, 1],
      node_trace_y = [0, 0, 0],
      hovertext =
        [''<b>a</b><br>Degree: 2<br>Community ID: 2'', ''<b>b</b><br>Degree: 2<br>Community ID: 2'',
         ''<b>c</b><br>Degree: 2<br>Community ID: 0''],
      marker_size = [10, 10, 10],
      marker_color = [AInt 2, AInt 2, AInt 0],
      marker_cmin = AInt 0, marker_cmax = AInt 2\<rparr>"

definition loop_graph :: nx_graph where
  "loop_graph = \<lparr>node_tbl = [(''a'', Map.empty)], edge_list = [(''a'', ''a'')]\<rparr>"

definition loop_figure :: figure where
  "loop_figure =
     \<lparr>edge_trace_x = [Some 1, Some 1, None],
      edge_trace_y = [Some 0, Some 0, None],
      node_trace_x = [1],
      node_trace_y = [0],
      hovertext = [''<b>a</b><br>Degree: 2<br>Community ID: 0''],
      marker_size = [10],
      marker_color = [AInt 0],
      marker_cmin = AInt 0, marker_cmax = AInt 0\<rparr>"

definition empty_graph :: nx_graph where
  "empty_graph = \<lparr>node_tbl = [], edge_list = []\<rparr>"

text \<open>
  A file system with a folder of two graph files and a text file, and an empty folder; a
  reader that reads every file, and one for which \<^verbatim>\<open>b.graphml\<close> is corrupt; a float
  parser; and a graph whose nodes store their sizes in several ways.
\<close>

definition example_fs :: filesystem where
  "example_fs =
     [''data'' \<mapsto> Directory [''a.graphml'', ''b.graphml'', ''notes.txt''],
      ''empty'' \<mapsto> Directory [''notes.txt'']]"

definition sized_graph :: nx_graph where
  "sized_graph =
     \<lparr>node_tbl = [(''n1'', [''size'' \<mapsto> AStr ''3'']), (''n2'', [''size'' \<mapsto> AStr ''big'']),
                  (''n3'', [''size'' \<mapsto> AInt 4]), (''n4'', Map.empty)],
      edge_list = [(''n1'', ''n2'')]\<rparr>"

definition good_reader :: "string \<Rightarrow> string + nx_graph" where
  "good_reader path = Inr sized_graph"

definition corrupt_reader :: "string \<Rightarrow> string + nx_graph" where
  "corrupt_reader path = (if path = ''data/b.graphml'' then Inl ''not well-formed'' else Inr sized_graph)"

definition example_float :: "string \<Rightarrow> real option" where
  "example_float s = (if s = ''3'' then Some 3 else None)"

section \<open>Running a computation\<close>

lemma bindM_getsM [simp]: "bindM (getsM f) k s = k (f s) s"
  by (simp add: bindM_def getsM_def)

lemma bindM_liftE_Inr [simp]: "bindM (liftE (Inr x)) k s = k x s"
  by (simp add: bindM_def liftE_def)

lemma bindM_liftE_Inl [simp]: "bindM (liftE (Inl e)) k s = (Inl e, s)"
  by (simp add: bindM_def liftE_def)

lemma read_only_returnM: "read_only (returnM x)"
  by (simp add: read_only_def returnM_def)

lemma read_only_liftE: "read_only (liftE r)"
  by (simp add: read_only_def liftE_def)

lemma read_only_getsM: "read_only (getsM f)"
  by (simp add: read_only_def getsM_def)

lemma read_only_bindM:
  assumes "read_only m" and "\<And>x. read_only (k x)"
  shows "read_only (bindM m k)"
proof -
  have "snd (bindM m k s) = s" for s
  proof (cases "m s")
    case (Pair r s')
    with assms(1) have s': "s' = s"
      by (metis read_only_def snd_conv)
    show ?thesis
    proof (cases r)
      case (Inl e)
      with Pair s' show ?thesis by (simp add: bindM_def)
    next
      case (Inr x)
      with Pair s' assms(2) [of x] show ?thesis by (simp add: bindM_def read_only_def)
    qed
  qed
  then show ?thesis by (simp add: read_only_def)
qed

lemma read_only_nx_nodes_item: "read_only (nx_nodes_item n)"
  by (simp add: read_only_def nx_nodes_item_def)

lemma read_only_nx_degree_item: "read_only (nx_degree_item n)"
  by (simp add: read_only_def nx_degree_item_def)

lemma read_only_node_loop: "read_only (node_loop float_repr pos min_deg degree_range ns acc)"
proof (induction ns arbitrary: acc)
  case Nil
  show ?case by (simp add: read_only_returnM)
next
  case (Cons n ns)
  show ?case
    by (auto simp add: Let_def split_def
          intro!: read_only_bindM read_only_liftE read_only_nx_nodes_item read_only_nx_degree_item Cons.IH)
qed

lemma read_only_create_plotly_graph:
  "read_only (create_plotly_graph spring_layout float_repr network_name)"
  unfolding create_plotly_graph_def nx_spring_layout_def nx_degree_def nx_nodes_def nx_edges_def
  by (auto simp add: Let_def split_def
        intro!: read_only_bindM read_only_liftE read_only_getsM read_only_node_loop read_only_returnM)

section \<open>The encoder does not change the graph\<close>

text \<open>
  C9: the encoder never mutates its input graph. Whatever the layout routine, the float
  printer and the display name, and whether the call returns a figure or raises, the graph
  object after \<^verbatim>\<open>create_plotly_graph\<close> is the graph object before it: the same node table
  (identifiers and every attribute dict) and the same edges. Every step of the encoder is a
  read of the graph.
\<close>

theorem create_plotly_graph_frame:
  "snd (create_plotly_graph spring_layout float_repr network_name G) = G"
  using read_only_create_plotly_graph [of spring_layout float_repr network_name]
  by (simp add: read_only_def)

section \<open>What the loops of the encoder compute\<close>

lemma bindM_returnM [simp]: "bindM (returnM x) k s = k x s"
  by (simp add: bindM_def returnM_def)

lemma bindM_dict_item:
  "bindM (liftE (dict_item d key)) k s = (case d key of None \<Rightarrow> (Inl KeyError, s) | Some v \<Rightarrow> k v s)"
  by (simp add: dict_item_def split: option.split)

lemma bindM_nx_nodes_item:
  "bindM (nx_nodes_item n) k G =
     (case map_of (node_tbl G) n of None \<Rightarrow> (Inl KeyError, G) | Some d \<Rightarrow> k d G)"
  by (simp add: bindM_def nx_nodes_item_def dict_item_def split: option.split)

lemma bindM_nx_degree_item:
  "bindM (nx_degree_item n) k G =
     (if n \<in> set (node_ids G) then k (degree_of G n) G else (Inl KeyError, G))"
  by (simp add: bindM_def nx_degree_item_def)

lemma bindM_py_truediv:
  "bindM (liftE (py_truediv a b)) k s =
     (if b = 0 then (Inl ZeroDivisionError, s) else k (real_of_int a / real_of_int b) s)"
  by (simp add: py_truediv_def)

lemma map_of_node_tbl:
  "n \<in> set (node_ids G) \<Longrightarrow> \<exists>d. map_of (node_tbl G) n = Some d"
  by (metis node_ids_def domD dom_map_of_conv_image_fst list.set_map)

lemma node_loop_eq:
  assumes "set ns \<subseteq> set (node_ids G)" and "degree_range \<noteq> 0"
  shows "node_loop float_repr pos min_deg degree_range ns acc G =
     (if list_all (\<lambda>n. pos n \<noteq> None) ns then
        (Inr \<lparr>node_x = node_x acc @ map (\<lambda>n. fst (the (pos n))) ns,
              node_y = node_y acc @ map (\<lambda>n. snd (the (pos n))) ns,
              node_text = node_text acc @
                map (\<lambda>n. hover_info float_repr n (degree_of G n) (community_of G n)) ns,
              node_sizes = node_sizes acc @
                map (\<lambda>n. 10 + real_of_int (degree_of G n - min_deg) / real_of_int degree_range * 40) ns,
              node_colors = node_colors acc @ map (community_of G) ns\<rparr>, G)
      else (Inl KeyError, G))"
  using assms(1)
proof (induction ns arbitrary: acc)
  case Nil
  show ?case by (simp add: returnM_def)
next
  case (Cons n ns)
  from Cons.prems have n: "n \<in> set (node_ids G)" and ns: "set ns \<subseteq> set (node_ids G)"
    by simp_all
  from map_of_node_tbl [OF n] obtain d where d: "map_of (node_tbl G) n = Some d" ..
  show ?case
  proof (cases "pos n")
    case None
    then show ?thesis by (simp add: bindM_dict_item)
  next
    case (Some p)
    then show ?thesis
      using n d assms(2)
      by (simp add: bindM_dict_item bindM_nx_nodes_item bindM_nx_degree_item bindM_py_truediv
            split_def Let_def Cons.IH [OF ns] community_of_def)
  qed
qed

lemma edge_loop_eq:
  "edge_loop pos es (ex, ey) =
     (if list_all (\<lambda>e. pos (fst e) \<noteq> None \<and> pos (snd e) \<noteq> None) es then
        Inr (ex @ concat (map (\<lambda>e. [Some (fst (the (pos (fst e)))), Some (fst (the (pos (snd e)))), None]) es),
             ey @ concat (map (\<lambda>e. [Some (snd (the (pos (fst e)))), Some (snd (the (pos (snd e)))), None]) es))
      else Inl KeyError)"
proof (induction es arbitrary: ex ey)
  case Nil
  show ?case by simp
next
  case (Cons e es)
  show ?case
    by (cases "pos (fst e)"; cases "pos (snd e)")
       (simp_all add: bindE_def dict_item_def split_def Cons.IH)
qed

lemma select_loop_int_lt: "select_loop int_lt m xs = Inr (fold min xs m)"
  by (induction xs arbitrary: m) (simp_all add: int_lt_def min_def)

lemma select_loop_int_gt: "select_loop int_gt m xs = Inr (fold max xs m)"
  by (induction xs arbitrary: m) (simp_all add: int_gt_def max_def)

lemma py_min_int: "xs \<noteq> [] \<Longrightarrow> py_min int_lt xs = Inr (Min (set xs))"
proof (cases xs)
  case (Cons x rest)
  then show ?thesis
    using Min.set_eq_fold [of x rest] by (simp add: py_min_def select_loop_int_lt)
qed simp

lemma py_max_int: "xs \<noteq> [] \<Longrightarrow> py_max int_gt xs = Inr (Max (set xs))"
proof (cases xs)
  case (Cons x rest)
  then show ?thesis
    using Max.set_eq_fold [of x rest] by (simp add: py_max_def select_loop_int_gt)
qed simp

lemma degree_bounds_eq:
  "degree_bounds ds =
     Inr (if ds = [] then (0, 1)
          else (Min (set ds), if Max (set ds) - Min (set ds) = 0 then 1 else Max (set ds) - Min (set ds)))"
  by (simp add: degree_bounds_def bindE_def py_min_int py_max_int Let_def)

lemma degree_bounds_range_nonzero: "degree_bounds ds = Inr (mn, rg) \<Longrightarrow> rg \<noteq> 0"
  by (auto simp add: degree_bounds_eq split: if_splits)

lemma create_plotly_graph_eq:
  assumes "degree_bounds (map (degree_of G) (node_ids G)) = Inr (min_deg, degree_range)"
  shows "create_plotly_graph spring_layout float_repr network_name G =
     (if \<not> layout_covers spring_layout G then (Inl KeyError, G)
      else
        case edge_loop (layout_of spring_layout G) (edge_list G) ([], []) of
          Inl e \<Rightarrow> (Inl e, G)
        | Inr (edge_x, edge_y) \<Rightarrow>
            (case color_bounds (map (community_of G) (node_ids G)) of
               Inl e \<Rightarrow> (Inl e, G)
             | Inr (cmin, cmax) \<Rightarrow>
                 (Inr \<lparr>edge_trace_x = edge_x, edge_trace_y = edge_y,
                       node_trace_x = map (\<lambda>n. fst (the (layout_of spring_layout G n))) (node_ids G),
                       node_trace_y = map (\<lambda>n. snd (the (layout_of spring_layout G n))) (node_ids G),
                       hovertext =
                         map (\<lambda>n. hover_info float_repr n (degree_of G n) (community_of G n)) (node_ids G),
                       marker_size =
                         map (\<lambda>n. 10 + real_of_int (degree_of G n - min_deg) / real_of_int degree_range * 40)
                           (node_ids G),
                       marker_color = map (community_of G) (node_ids G),
                       marker_cmin = cmin, marker_cmax = cmax\<rparr>, G)))"
proof -
  let ?pos = "layout_of spring_layout G"
  define acc where "acc =
     \<lparr>node_x = map (\<lambda>n. fst (the (?pos n))) (node_ids G),
      node_y = map (\<lambda>n. snd (the (?pos n))) (node_ids G),
      node_text = map (\<lambda>n. hover_info float_repr n (degree_of G n) (community_of G n)) (node_ids G),
      node_sizes =
        map (\<lambda>n. 10 + real_of_int (degree_of G n - min_deg) / real_of_int degree_range * 40) (node_ids G),
      node_colors = map (community_of G) (node_ids G)\<rparr>"
  have rg: "degree_range \<noteq> 0"
    using assms(1) by (rule degree_bounds_range_nonzero)
  have raw: "snd \<circ> (\<lambda>n. (n, degree_of G n)) = degree_of G"
    by (simp add: comp_def)
  have nl: "node_loop float_repr ?pos min_deg degree_range (node_ids G)
              \<lparr>node_x = [], node_y = [], node_text = [], node_sizes = [], node_colors = []\<rparr> G =
            (if layout_covers spring_layout G then (Inr acc, G) else (Inl KeyError, G))"
    unfolding acc_def layout_covers_def by (simp only: node_loop_eq [OF subset_refl rg]) simp
  have pos: "spring_layout G (3 / 10) 50 42 = ?pos"
    by (simp add: layout_of_def)
  note defs = create_plotly_graph_def nx_spring_layout_def nx_degree_def nx_nodes_def nx_edges_def
    bindM_def liftE_def getsM_def returnM_def Let_def
  show ?thesis
  proof (cases "layout_covers spring_layout G")
    case False
    then show ?thesis
      by (simp add: defs raw assms(1) pos nl)
  next
    case True
    show ?thesis
    proof (cases "edge_loop ?pos (edge_list G) ([], [])")
      case (Inl e)
      with True show ?thesis
        by (simp add: defs raw assms(1) pos nl)
    next
      case (Inr exy)
      obtain edge_x edge_y where exy: "exy = (edge_x, edge_y)"
        by (cases exy)
      show ?thesis
      proof (cases "color_bounds (map (community_of G) (node_ids G))")
        case (Inl e)
        with True Inr exy show ?thesis
          by (simp add: defs raw assms(1) pos nl acc_def)
      next
        case cb: (Inr cmm)
        obtain cmin cmax where cmm: "cmm = (cmin, cmax)"
          by (cases cmm)
        from True Inr exy cb cmm show ?thesis
          by (simp add: defs raw assms(1) pos nl acc_def)
      qed
    qed
  qed
qed

lemma degree_bounds_nodes:
  "node_ids G \<noteq> [] \<Longrightarrow>
   degree_bounds (map (degree_of G) (node_ids G)) = Inr (min_degree G, spec_range G)"
  by (simp add: degree_bounds_eq min_degree_def max_degree_def spec_range_def)

lemma degree_bounds_total: "\<exists>mn rg. degree_bounds ds = Inr (mn, rg)"
  by (simp add: degree_bounds_eq)

lemma create_plotly_graph_InrD:
  assumes "create_plotly_graph spring_layout float_repr network_name G = (Inr fig, G')"
    and "degree_bounds (map (degree_of G) (node_ids G)) = Inr (min_deg, degree_range)"
  shows "G' = G"
    and "layout_covers spring_layout G"
    and "edge_loop (layout_of spring_layout G) (edge_list G) ([], []) = Inr (edge_trace_x fig, edge_trace_y fig)"
    and "color_bounds (map (community_of G) (node_ids G)) = Inr (marker_cmin fig, marker_cmax fig)"
    and "node_trace_x fig = map (\<lambda>n. fst (the (layout_of spring_layout G n))) (node_ids G)"
    and "node_trace_y fig = map (\<lambda>n. snd (the (layout_of spring_layout G n))) (node_ids G)"
    and "hovertext fig = map (\<lambda>n. hover_info float_repr n (degree_of G n) (community_of G n)) (node_ids G)"
    and "marker_size fig =
           map (\<lambda>n. 10 + real_of_int (degree_of G n - min_deg) / real_of_int degree_range * 40) (node_ids G)"
    and "marker_color fig = map (community_of G) (node_ids G)"
proof -
  note eq = assms(1) [unfolded create_plotly_graph_eq [OF assms(2)]]
  show cov: "layout_covers spring_layout G"
    using eq by (simp split: if_splits)
  obtain ex ey where el: "edge_loop (layout_of spring_layout G) (edge_list G) ([], []) = Inr (ex, ey)"
    using eq cov by (simp split: sum.splits prod.splits)
  obtain cmin cmax where cb: "color_bounds (map (community_of G) (node_ids G)) = Inr (cmin, cmax)"
    using eq cov el by (simp split: sum.splits prod.splits)
  define R where "R = \<lparr>edge_trace_x = ex, edge_trace_y = ey,
                       node_trace_x = map (\<lambda>n. fst (the (layout_of spring_layout G n))) (node_ids G),
                       node_trace_y = map (\<lambda>n. snd (the (layout_of spring_layout G n))) (node_ids G),
                       hovertext =
                         map (\<lambda>n. hover_info float_repr n (degree_of G n) (community_of G n)) (node_ids G),
                       marker_size =
                         map (\<lambda>n. 10 + real_of_int (degree_of G n - min_deg) / real_of_int degree_range * 40)
                           (node_ids G),
                       marker_color = map (community_of G) (node_ids G),
                       marker_cmin = cmin, marker_cmax = cmax\<rparr>"
  have "create_plotly_graph spring_layout float_repr network_name G = (Inr R, G)"
    unfolding create_plotly_graph_eq [OF assms(2)] R_def using cov el cb by simp
  with assms(1) have fig: "fig = R" and G': "G' = G"
    by simp_all
  show "G' = G" by (rule G')
  show "edge_loop (layout_of spring_layout G) (edge_list G) ([], []) = Inr (edge_trace_x fig, edge_trace_y fig)"
    by (simp add: fig R_def el)
  show "color_bounds (map (community_of G) (node_ids G)) = Inr (marker_cmin fig, marker_cmax fig)"
    by (simp add: fig R_def cb)
  show "node_trace_x fig = map (\<lambda>n. fst (the (layout_of spring_layout G n))) (node_ids G)"
    by (simp add: fig R_def)
  show "node_trace_y fig = map (\<lambda>n. snd (the (layout_of spring_layout G n))) (node_ids G)"
    by (simp add: fig R_def)
  show "hovertext fig = map (\<lambda>n. hover_info float_repr n (degree_of G n) (community_of G n)) (node_ids G)"
    by (simp add: fig R_def)
  show "marker_size fig =
           map (\<lambda>n. 10 + real_of_int (degree_of G n - min_deg) / real_of_int degree_range * 40) (node_ids G)"
    by (simp add: fig R_def)
  show "marker_color fig = map (community_of G) (node_ids G)"
    by (simp add: fig R_def)
qed

lemma pixel_size_bounds:
  assumes "n \<in> set (node_ids G)"
  shows "10 \<le> spec_pixel_size G n" and "spec_pixel_size G n \<le> 50"
proof -
  let ?D = "degree_of G ` set (node_ids G)"
  define x where "x = real_of_int (degree_of G n - min_degree G)"
  define r where "r = real_of_int (spec_range G)"
  have fin: "finite ?D" by simp
  have mem: "degree_of G n \<in> ?D" using assms by simp
  have lo: "min_degree G \<le> degree_of G n"
    unfolding min_degree_def using fin mem by (rule Min_le)
  have hi: "degree_of G n \<le> max_degree G"
    unfolding max_degree_def using fin mem by (rule Max_ge)
  have "0 < spec_range G" and "degree_of G n - min_degree G \<le> spec_range G"
    using lo hi by (simp_all add: spec_range_def)
  then have r: "0 < r" and xr: "x \<le> r"
    unfolding x_def r_def by simp_all
  have x: "0 \<le> x"
    unfolding x_def using lo by simp
  have size: "spec_pixel_size G n = 10 + 40 * (x / r)"
    by (simp add: spec_pixel_size_def x_def r_def)
  have "0 \<le> x / r" and "x / r \<le> 1"
    using x r xr by simp_all
  then show "10 \<le> spec_pixel_size G n" and "spec_pixel_size G n \<le> 50"
    unfolding size by simp_all
qed

lemma pixel_size_min: "degree_of G n = min_degree G \<Longrightarrow> spec_pixel_size G n = 10"
  by (simp add: spec_pixel_size_def)

lemma pixel_size_max:
  assumes "degree_of G n = max_degree G" and "0 < max_degree G - min_degree G"
  shows "spec_pixel_size G n = 50"
proof -
  define r where "r = real_of_int (max_degree G - min_degree G)"
  have r: "r \<noteq> 0"
    unfolding r_def using assms(2) by simp
  have "spec_pixel_size G n = 10 + 40 * r / r"
    using assms by (simp add: spec_pixel_size_def spec_range_def r_def)
  with r show ?thesis by simp
qed

lemma marker_size_spec:
  assumes "create_plotly_graph spring_layout float_repr network_name G = (Inr fig, G')"
  shows "marker_size fig = map (spec_pixel_size G) (node_ids G)"
proof (cases "node_ids G = []")
  case True
  obtain mn rg where "degree_bounds (map (degree_of G) (node_ids G)) = Inr (mn, rg)"
    using degree_bounds_total by blast
  from create_plotly_graph_InrD(8) [OF assms this] True show ?thesis by simp
next
  case False
  from create_plotly_graph_InrD(8) [OF assms degree_bounds_nodes [OF False]]
  show ?thesis by (simp add: spec_pixel_size_def)
qed

lemma all_same_min:
  assumes "\<forall>n \<in> set (node_ids G). \<forall>m \<in> set (node_ids G). degree_of G n = degree_of G m"
    and "n \<in> set (node_ids G)"
  shows "min_degree G = degree_of G n"
proof -
  have "degree_of G ` set (node_ids G) = {degree_of G n}"
  proof
    show "degree_of G ` set (node_ids G) \<subseteq> {degree_of G n}"
      using assms by blast
    show "{degree_of G n} \<subseteq> degree_of G ` set (node_ids G)"
      using assms(2) by blast
  qed
  then show ?thesis
    by (simp add: min_degree_def)
qed


section \<open>What the loop of the loader computes\<close>

lemma load_loop_skip:
  "\<not> py_endswith f ''.graphml'' \<Longrightarrow> load_loop rd fl p (f # names) st = load_loop rd fl p names st"
  by simp

lemma load_loop_fail:
  "py_endswith f ''.graphml'' \<Longrightarrow> rd (os_path_join p f) = Inl msg \<Longrightarrow>
   load_loop rd fl p (f # names) st =
     load_loop rd fl p names (st\<lparr>printed := printed st @ [''Error loading '' @ f @ '': '' @ msg]\<rparr>)"
  by simp

lemma load_loop_store:
  "py_endswith f ''.graphml'' \<Longrightarrow> rd (os_path_join p f) = Inr G \<Longrightarrow>
   load_loop rd fl p (f # names) st =
     load_loop rd fl p names
       (st\<lparr>networks_dict := (networks_dict st)(network_name_of f \<mapsto> clean_attributes fl G)\<rparr>)"
  by simp

lemma graph_files_Cons:
  "graph_files (f # names) = (if py_endswith f ''.graphml'' then f # graph_files names else graph_files names)"
  by (simp add: graph_files_def)

lemma load_loop_dom:
  "dom (networks_dict (load_loop rd fl p names st)) =
     dom (networks_dict st) \<union> set (map network_name_of (filter (parses rd p) (graph_files names)))"
proof (induction names arbitrary: st)
  case Nil
  show ?case by (simp add: graph_files_def)
next
  case (Cons f names)
  show ?case
  proof (cases "py_endswith f ''.graphml''")
    case False
    then show ?thesis
      by (simp add: load_loop_skip graph_files_Cons Cons.IH del: load_loop.simps)
  next
    case True
    show ?thesis
    proof (cases "rd (os_path_join p f)")
      case (Inl msg)
      then have "\<not> parses rd p f" by (simp add: parses_def)
      with True show ?thesis
        by (simp add: load_loop_fail [where rd = rd, OF True Inl] graph_files_Cons Cons.IH del: load_loop.simps)
    next
      case (Inr G)
      then have "parses rd p f" by (simp add: parses_def)
      let ?st' = "st\<lparr>networks_dict := (networks_dict st)(network_name_of f \<mapsto> clean_attributes fl G)\<rparr>"
      have "dom (networks_dict (load_loop rd fl p (f # names) st)) =
            dom (networks_dict ?st') \<union> set (map network_name_of (filter (parses rd p) (graph_files names)))"
        by (simp only: load_loop_store [where rd = rd, OF True Inr] Cons.IH)
      also have "dom (networks_dict ?st') = insert (network_name_of f) (dom (networks_dict st))"
        by simp
      also have "insert (network_name_of f) (dom (networks_dict st)) \<union>
                   set (map network_name_of (filter (parses rd p) (graph_files names))) =
                 dom (networks_dict st) \<union>
                   set (map network_name_of (filter (parses rd p) (graph_files (f # names))))"
        using True \<open>parses rd p f\<close> by (simp add: graph_files_Cons)
      finally show ?thesis .
    qed
  qed
qed

lemma load_loop_other:
  assumes "\<forall>g \<in> set (graph_files names). parses rd p g \<longrightarrow> network_name_of g \<noteq> k"
  shows "networks_dict (load_loop rd fl p names st) k = networks_dict st k"
  using assms
proof (induction names arbitrary: st)
  case Nil
  show ?case by simp
next
  case (Cons f names)
  from Cons.prems have rest: "\<forall>g \<in> set (graph_files names). parses rd p g \<longrightarrow> network_name_of g \<noteq> k"
    by (simp add: graph_files_def)
  show ?case
  proof (cases "py_endswith f ''.graphml''")
    case False
    then show ?thesis by (simp add: Cons.IH [OF rest])
  next
    case True
    show ?thesis
    proof (cases "rd (os_path_join p f)")
      case (Inl msg)
      with True show ?thesis by (simp add: Cons.IH [OF rest])
    next
      case (Inr G)
      with True Cons.prems have "network_name_of f \<noteq> k"
        by (simp add: graph_files_def parses_def)
      with True Inr show ?thesis
        by (simp add: Cons.IH [OF rest])
    qed
  qed
qed

lemma load_loop_value:
  assumes "f \<in> set (graph_files names)"
    and "rd (os_path_join p f) = Inr G"
    and "\<forall>g \<in> set (graph_files names). parses rd p g \<and> network_name_of g = network_name_of f \<longrightarrow> g = f"
  shows "networks_dict (load_loop rd fl p names st) (network_name_of f) = Some (clean_attributes fl G)"
  using assms(1,3)
proof (induction names arbitrary: st)
  case Nil
  then show ?case by (simp add: graph_files_def)
next
  case (Cons f0 names)
  let ?st' = "(if py_endswith f0 ''.graphml'' then
          (case rd (os_path_join p f0) of
             Inr G \<Rightarrow>
               st\<lparr>networks_dict :=
                    (networks_dict st)(network_name_of f0 \<mapsto> clean_attributes fl G)\<rparr>
           | Inl msg \<Rightarrow>
               st\<lparr>printed := printed st @ [''Error loading '' @ f0 @ '': '' @ msg]\<rparr>)
        else st)"
  have step: "load_loop rd fl p (f0 # names) st = load_loop rd fl p names ?st'"
    by simp
  from Cons.prems(2)
  have uniq: "\<forall>g \<in> set (graph_files names). parses rd p g \<and> network_name_of g = network_name_of f \<longrightarrow> g = f"
    by (simp add: graph_files_def split: if_splits)
  show ?case
  proof (cases "f \<in> set (graph_files names)")
    case True
    show ?thesis
      unfolding step by (rule Cons.IH [OF True uniq])
  next
    case False
    with Cons.prems(1) have f0: "f0 = f" and ends: "py_endswith f ''.graphml''"
      by (auto simp add: graph_files_def split: if_splits)
    have "\<forall>g \<in> set (graph_files names). parses rd p g \<longrightarrow> network_name_of g \<noteq> network_name_of f"
      using uniq False by blast
    from load_loop_other [OF this]
    have "networks_dict (load_loop rd fl p names ?st') (network_name_of f) = networks_dict ?st' (network_name_of f)" .
    also have "\<dots> = Some (clean_attributes fl G)"
      using f0 ends assms(2) by simp
    finally show ?thesis
      unfolding step .
  qed
qed

lemma load_loop_printed_mono:
  "set (printed st) \<subseteq> set (printed (load_loop rd fl p names st))"
proof (induction names arbitrary: st)
  case Nil
  show ?case by simp
next
  case (Cons f names)
  show ?case
  proof (cases "py_endswith f ''.graphml''")
    case False
    then show ?thesis
      using Cons.IH [of st] by (simp add: load_loop_skip del: load_loop.simps)
  next
    case True
    show ?thesis
    proof (cases "rd (os_path_join p f)")
      case (Inl msg)
      show ?thesis
        using Cons.IH [of "st\<lparr>printed := printed st @ [''Error loading '' @ f @ '': '' @ msg]\<rparr>"]
        by (simp add: load_loop_fail [where rd = rd, OF True Inl] del: load_loop.simps)
    next
      case (Inr G)
      show ?thesis
        using Cons.IH [of "st\<lparr>networks_dict := (networks_dict st)(network_name_of f \<mapsto> clean_attributes fl G)\<rparr>"]
        by (simp add: load_loop_store [where rd = rd, OF True Inr] del: load_loop.simps)
    qed
  qed
qed

lemma load_loop_printed:
  assumes "f \<in> set (graph_files names)" and "rd (os_path_join p f) = Inl msg"
  shows "''Error loading '' @ f @ '': '' @ msg \<in> set (printed (load_loop rd fl p names st))"
  using assms(1)
proof (induction names arbitrary: st)
  case Nil
  then show ?case by (simp add: graph_files_def)
next
  case (Cons f0 names)
  show ?case
  proof (cases "f0 = f")
    case True
    from assms(1) have ends: "py_endswith f ''.graphml''"
      by (simp add: graph_files_def)
    let ?st' = "st\<lparr>printed := printed st @ [''Error loading '' @ f @ '': '' @ msg]\<rparr>"
    have "''Error loading '' @ f @ '': '' @ msg \<in> set (printed ?st')"
      by simp
    with load_loop_printed_mono [of ?st' rd fl p names]
    have "''Error loading '' @ f @ '': '' @ msg \<in> set (printed (load_loop rd fl p names ?st'))"
      by blast
    then show ?thesis
      unfolding True load_loop_fail [where rd = rd, OF ends assms(2)] .
  next
    case False
    with Cons.prems have mem: "f \<in> set (graph_files names)"
      by (simp add: graph_files_Cons split: if_splits)
    show ?thesis
    proof (cases "py_endswith f0 ''.graphml''")
      case no: False
      show ?thesis
        unfolding load_loop_skip [OF no] by (rule Cons.IH [OF mem])
    next
      case ends: True
      show ?thesis
      proof (cases "rd (os_path_join p f0)")
        case (Inl msg0)
        show ?thesis
          unfolding load_loop_fail [where rd = rd, OF ends Inl] by (rule Cons.IH [OF mem])
      next
        case (Inr G)
        show ?thesis
          unfolding load_loop_store [where rd = rd, OF ends Inr] by (rule Cons.IH [OF mem])
      qed
    qed
  qed
qed

lemma os_listdir_Inr: "(os_listdir fs p = Inr names) = (fs p = Some (Directory names))"
  by (simp add: os_listdir_def split: option.split fs_node.split)

lemma load_all_networks_dir:
  assumes "os_listdir fs p = Inr names"
  shows "load_all_networks fs rd fl p =
     (Inr (Some (networks_dict (load_loop rd fl p names \<lparr>networks_dict = Map.empty, printed = []\<rparr>))),
      printed (load_loop rd fl p names \<lparr>networks_dict = Map.empty, printed = []\<rparr>))"
proof -
  from assms have "fs p = Some (Directory names)"
    by (simp add: os_listdir_Inr)
  then have "os_path_exists fs p"
    by (simp add: os_path_exists_def)
  with assms show ?thesis
    by (simp add: load_all_networks_def Let_def)
qed

lemma str_replace_suffix_only:
  assumes "\<forall>i < length q. \<not> prefix ext (drop i (q @ ext))" and "ext \<noteq> []"
  shows "str_replace (q @ ext) ext [] = q"
  using assms(1)
proof (induction q)
  case Nil
  have "str_replace ext ext [] = str_replace [] ext []"
    using assms(2) by (subst str_replace.simps) simp
  also have "\<dots> = []"
    using assms(2) by (subst str_replace.simps) simp
  finally show ?case by simp
next
  case (Cons c q)
  from Cons.prems have "\<not> prefix ext (drop 0 ((c # q) @ ext))"
    by blast
  then have no: "\<not> prefix ext (c # q @ ext)"
    by simp
  have rest: "\<forall>i < length q. \<not> prefix ext (drop i (q @ ext))"
  proof (intro allI impI)
    fix i assume "i < length q"
    then have "Suc i < length (c # q)" by simp
    with Cons.prems have "\<not> prefix ext (drop (Suc i) ((c # q) @ ext))" by blast
    then show "\<not> prefix ext (drop i (q @ ext))" by simp
  qed
  have "str_replace ((c # q) @ ext) ext [] = c # str_replace (q @ ext) ext []"
    using assms(2) no by (subst str_replace.simps) simp
  with Cons.IH [OF rest] show ?case by simp
qed

lemma network_name_of_strip:
  assumes "extension_only_at_end f"
  shows "network_name_of f = strip_extension f"
proof -
  from assms have suf: "suffix ''.graphml'' f"
    and no: "\<forall>i < length f - length ''.graphml''. \<not> prefix ''.graphml'' (drop i f)"
    by (simp_all add: extension_only_at_end_def list_all_iff)
  from suf obtain q where f: "f = q @ ''.graphml''"
    by (auto simp add: suffix_def)
  from no have "\<forall>i < length q. \<not> prefix ''.graphml'' (drop i (q @ ''.graphml''))"
    unfolding f by simp
  from str_replace_suffix_only [OF this] have "str_replace (q @ ''.graphml'') ''.graphml'' [] = q"
    by simp
  then show ?thesis
    by (simp add: network_name_of_def strip_extension_def f)
qed

lemma strip_extension_inj:
  assumes "py_endswith f ''.graphml''" and "py_endswith g ''.graphml''"
    and "strip_extension f = strip_extension g"
  shows "f = g"
proof -
  from assms(1) obtain q where f: "f = q @ ''.graphml''"
    by (auto simp add: py_endswith_def suffix_def)
  from assms(2) obtain q' where g: "g = q' @ ''.graphml''"
    by (auto simp add: py_endswith_def suffix_def)
  from assms(3) show ?thesis
    by (simp add: f g strip_extension_def)
qed

section \<open>The examples, run\<close>

lemma create_plotly_graph_pair:
  "create_plotly_graph spring_layout float_repr network_name G =
     (fst (create_plotly_graph spring_layout float_repr network_name G), G)"
  using read_only_create_plotly_graph [of spring_layout float_repr network_name]
  by (simp add: read_only_def prod_eq_iff)

lemma star_run: "create_plotly_graph name_layout example_repr ''star'' star = (Inr star_figure, star)"
proof -
  have "fst (create_plotly_graph name_layout example_repr ''star'' star) = Inr star_figure"
    by code_simp
  then show ?thesis
    using create_plotly_graph_pair [of name_layout example_repr "''star''" star] by simp
qed

lemma triangle_run:
  "create_plotly_graph name_layout example_repr ''triangle'' triangle = (Inr triangle_figure, triangle)"
proof -
  have "fst (create_plotly_graph name_layout example_repr ''triangle'' triangle) = Inr triangle_figure"
    by code_simp
  then show ?thesis
    using create_plotly_graph_pair [of name_layout example_repr "''triangle''" triangle] by simp
qed

lemma triangle_restored_run:
  "create_plotly_graph name_layout example_repr ''restored'' triangle_restored =
     (Inr triangle_figure, triangle_restored)"
proof -
  have "fst (create_plotly_graph name_layout example_repr ''restored'' triangle_restored) =
        Inr triangle_figure"
    by code_simp
  then show ?thesis
    using create_plotly_graph_pair [of name_layout example_repr "''restored''" triangle_restored] by simp
qed

lemma loop_run: "create_plotly_graph name_layout example_repr ''loop'' loop_graph = (Inr loop_figure, loop_graph)"
proof -
  have "fst (create_plotly_graph name_layout example_repr ''loop'' loop_graph) = Inr loop_figure"
    by code_simp
  then show ?thesis
    using create_plotly_graph_pair [of name_layout example_repr "''loop''" loop_graph] by simp
qed

section \<open>One encoded node per node, one segment per edge\<close>

lemma py_lt_numeric:
  assumes "is_numeric a" and "is_numeric b"
  shows "\<exists>c. py_lt a b = Inr c"
  using assms by (cases a; cases b) (simp_all add: is_numeric_def)

lemma select_loop_closed:
  assumes "\<And>a b. P a \<Longrightarrow> P b \<Longrightarrow> \<exists>c. cmp a b = Inr c"
    and "P m" and "list_all P xs"
  shows "\<exists>r. select_loop cmp m xs = Inr r"
  using assms(2,3)
proof (induction xs arbitrary: m)
  case Nil
  show ?case by simp
next
  case (Cons x xs)
  from Cons.prems have x: "P x" and xs: "list_all P xs"
    by simp_all
  from assms(1) [OF x Cons.prems(1)] obtain c where c: "cmp x m = Inr c" ..
  have "P (if c then x else m)"
    using x Cons.prems(1) by simp
  from Cons.IH [OF this xs] show ?case
    by (simp add: c)
qed

lemma color_bounds_total:
  assumes "list_all is_numeric cs"
  shows "\<exists>cmin cmax. color_bounds cs = Inr (cmin, cmax)"
proof (cases cs)
  case Nil
  then show ?thesis by (simp add: color_bounds_def bindE_def)
next
  case (Cons c rest)
  with assms have c: "is_numeric c" and rest: "list_all is_numeric rest"
    by simp_all
  have gt: "\<And>a b. is_numeric a \<Longrightarrow> is_numeric b \<Longrightarrow> \<exists>c. py_gt a b = Inr c"
    unfolding py_gt_def by (rule py_lt_numeric)
  from select_loop_closed [of is_numeric py_lt, OF py_lt_numeric c rest]
    select_loop_closed [of is_numeric py_gt, OF gt c rest]
  have "\<exists>lo hi. select_loop py_lt c rest = Inr lo \<and> select_loop py_gt c rest = Inr hi"
    by blast
  then show ?thesis
    using Cons by (auto simp add: color_bounds_def bindE_def py_min_def py_max_def)
qed

lemma edge_loop_segments:
  "edge_loop pos es ([], []) =
     (if list_all (\<lambda>e. pos (fst e) \<noteq> None \<and> pos (snd e) \<noteq> None) es then
        Inr (concat (map (segment_x pos) es), concat (map (segment_y pos) es))
      else Inl KeyError)"
proof -
  have "segment_x pos = (\<lambda>e. [Some (fst (the (pos (fst e)))), Some (fst (the (pos (snd e)))), None])"
    and "segment_y pos = (\<lambda>e. [Some (snd (the (pos (fst e)))), Some (snd (the (pos (snd e)))), None])"
    by (simp_all add: fun_eq_iff segment_x_def segment_y_def)
  then show ?thesis
    by (simp add: edge_loop_eq)
qed

lemma length_segments:
  "length (concat (map (segment_x pos) es)) = 3 * length es"
  "length (concat (map (segment_y pos) es)) = 3 * length es"
  by (induction es) (simp_all add: segment_x_def segment_y_def)

lemma edge_loop_covered:
  assumes "wf_graph G" and "layout_covers spring_layout G"
  shows "list_all (\<lambda>e. layout_of spring_layout G (fst e) \<noteq> None \<and> layout_of spring_layout G (snd e) \<noteq> None)
           (edge_list G)"
  using assms by (auto simp add: wf_graph_def layout_covers_def list_all_iff)

text \<open>
  C1: the encoder produces exactly one encoded node per node of the graph and one encoded
  segment per edge. Whenever \<^verbatim>\<open>create_plotly_graph\<close> returns a figure, each of the five node
  lists (x, y, hover text, size, colour) has as many entries as the graph has nodes, and each
  coordinate list of the edge trace is the concatenation, in the order of the edges, of one
  segment \<open>[start, end, None]\<close> per edge. And it does return a figure for every graph that
  networkx can hold (unique node identifiers, every edge between nodes of the graph), laid
  out with a position for every node, whose colour values are numbers.
\<close>

theorem encoder_counts:
  "(create_plotly_graph spring_layout float_repr network_name G = (Inr fig, G') \<longrightarrow>
      length (node_trace_x fig) = length (node_ids G) \<and>
      length (node_trace_y fig) = length (node_ids G) \<and>
      length (hovertext fig) = length (node_ids G) \<and>
      length (marker_size fig) = length (node_ids G) \<and>
      length (marker_color fig) = length (node_ids G) \<and>
      edge_trace_x fig = concat (map (segment_x (layout_of spring_layout G)) (edge_list G)) \<and>
      edge_trace_y fig = concat (map (segment_y (layout_of spring_layout G)) (edge_list G)) \<and>
      length (edge_trace_x fig) = 3 * length (edge_list G) \<and>
      length (edge_trace_y fig) = 3 * length (edge_list G)) \<and>
   (wf_graph G \<and> layout_covers spring_layout G \<and> colors_numeric G \<longrightarrow>
      (\<exists>fig. create_plotly_graph spring_layout float_repr network_name G = (Inr fig, G)))"
proof (intro conjI impI)
  obtain mn rg where db: "degree_bounds (map (degree_of G) (node_ids G)) = Inr (mn, rg)"
    using degree_bounds_total by blast
  {
    assume run: "create_plotly_graph spring_layout float_repr network_name G = (Inr fig, G')"
    note d = create_plotly_graph_InrD [OF run db]
    from d(3) have ex: "edge_trace_x fig = concat (map (segment_x (layout_of spring_layout G)) (edge_list G))"
      and ey: "edge_trace_y fig = concat (map (segment_y (layout_of spring_layout G)) (edge_list G))"
      by (simp_all add: edge_loop_segments split: if_splits)
    show "length (node_trace_x fig) = length (node_ids G)" by (simp add: d(5))
    show "length (node_trace_y fig) = length (node_ids G)" by (simp add: d(6))
    show "length (hovertext fig) = length (node_ids G)" by (simp add: d(7))
    show "length (marker_size fig) = length (node_ids G)" by (simp add: d(8))
    show "length (marker_color fig) = length (node_ids G)" by (simp add: d(9))
    show "edge_trace_x fig = concat (map (segment_x (layout_of spring_layout G)) (edge_list G))" by (rule ex)
    show "edge_trace_y fig = concat (map (segment_y (layout_of spring_layout G)) (edge_list G))" by (rule ey)
    show "length (edge_trace_x fig) = 3 * length (edge_list G)" by (simp only: ex length_segments)
    show "length (edge_trace_y fig) = 3 * length (edge_list G)" by (simp only: ey length_segments)
  }
  assume hyp: "wf_graph G \<and> layout_covers spring_layout G \<and> colors_numeric G"
  then have cov: "layout_covers spring_layout G" by simp
  from hyp have edges: "list_all (\<lambda>e. layout_of spring_layout G (fst e) \<noteq> None \<and>
      layout_of spring_layout G (snd e) \<noteq> None) (edge_list G)"
    using edge_loop_covered [of G spring_layout] by blast
  from hyp obtain cmin cmax where cb: "color_bounds (map (community_of G) (node_ids G)) = Inr (cmin, cmax)"
    using color_bounds_total [of "map (community_of G) (node_ids G)"]
    by (auto simp add: colors_numeric_def)
  show "\<exists>fig. create_plotly_graph spring_layout float_repr network_name G = (Inr fig, G)"
    unfolding create_plotly_graph_eq [OF db]
    using cov edges cb by (simp add: edge_loop_segments)
qed

text \<open>The star: five nodes and four edges, so five entries and twelve coordinates.\<close>

theorem encoder_counts_witness:
  "length (node_trace_x star_figure) = 5 \<and>
   length (node_trace_y star_figure) = 5 \<and>
   length (hovertext star_figure) = 5 \<and>
   length (marker_size star_figure) = 5 \<and>
   length (marker_color star_figure) = 5 \<and>
   length (node_ids star) = 5 \<and>
   length (edge_trace_x star_figure) = 3 * 4 \<and>
   length (edge_trace_y star_figure) = 3 * 4 \<and>
   length (edge_list star) = 4 \<and>
   wf_graph star \<and> layout_covers name_layout star \<and> colors_numeric star \<and>
   (\<exists>fig. create_plotly_graph name_layout example_repr ''star'' star = (Inr fig, star))"
proof -
  have hyp: "wf_graph star \<and> layout_covers name_layout star \<and> colors_numeric star"
    by code_simp
  have n: "length (node_ids star) = 5" and e: "length (edge_list star) = 4"
    by (simp_all add: star_def node_ids_def)
  from encoder_counts [of name_layout example_repr "''star''" star star_figure star] star_run hyp n e
  show ?thesis by (simp add: length_segments)
qed

section \<open>The graph without nodes\<close>

text \<open>
  C10: for a graph with zero nodes the encoder returns a figure and raises nothing. The
  guarded branches give the minimum degree 0 and the range 1, and the colour bounds 0 and 1;
  the minimum or maximum of the empty list, which would raise \<^verbatim>\<open>ValueError\<close>, is never
  evaluated, and no division takes place.
\<close>

theorem empty_graph_encoded:
  assumes "node_tbl G = []" and "wf_graph G"
  shows "create_plotly_graph spring_layout float_repr network_name G =
           (Inr \<lparr>edge_trace_x = [], edge_trace_y = [], node_trace_x = [], node_trace_y = [],
                  hovertext = [], marker_size = [], marker_color = [],
                  marker_cmin = AInt 0, marker_cmax = AInt 1\<rparr>, G) \<and>
         degree_bounds [] = Inr (0, 1) \<and>
         color_bounds [] = Inr (AInt 0, AInt 1) \<and>
         py_min int_lt [] = Inl ValueError \<and> py_max int_gt [] = Inl ValueError \<and>
         py_min py_lt [] = Inl ValueError \<and> py_max py_gt [] = Inl ValueError"
proof -
  from assms(1) have ids: "node_ids G = []"
    by (simp add: node_ids_def)
  have edges: "edge_list G = []"
  proof (cases "edge_list G")
    case (Cons e es)
    with assms(2) ids show ?thesis
      by (simp add: wf_graph_def)
  qed simp
  have db: "degree_bounds (map (degree_of G) (node_ids G)) = Inr (0, 1)"
    by (simp add: ids degree_bounds_def)
  have cb: "color_bounds [] = Inr (AInt 0, AInt 1)"
    by (simp add: color_bounds_def bindE_def)
  have "create_plotly_graph spring_layout float_repr network_name G =
           (Inr \<lparr>edge_trace_x = [], edge_trace_y = [], node_trace_x = [], node_trace_y = [],
                  hovertext = [], marker_size = [], marker_color = [],
                  marker_cmin = AInt 0, marker_cmax = AInt 1\<rparr>, G)"
    unfolding create_plotly_graph_eq [OF db]
    by (simp add: ids edges cb layout_covers_def)
  then show ?thesis
    by (simp add: cb degree_bounds_def py_min_def py_max_def)
qed

text \<open>The graph without nodes and edges.\<close>

theorem empty_graph_encoded_witness:
  "node_tbl empty_graph = [] \<and> wf_graph empty_graph \<and>
   create_plotly_graph name_layout example_repr ''none'' empty_graph =
     (Inr \<lparr>edge_trace_x = [], edge_trace_y = [], node_trace_x = [], node_trace_y = [],
            hovertext = [], marker_size = [], marker_color = [],
            marker_cmin = AInt 0, marker_cmax = AInt 1\<rparr>, empty_graph)"
proof -
  have a: "node_tbl empty_graph = []" and b: "wf_graph empty_graph"
    by (simp_all add: empty_graph_def wf_graph_def node_ids_def)
  from empty_graph_encoded [OF a b, of name_layout example_repr "''none''"] a b
  show ?thesis by simp
qed

section \<open>Degrees are counted from the edges\<close>

lemma degree_of_incident: "degree_of G n = incident_edges G n + self_loops G n"
proof -
  have "length (filter (\<lambda>e. fst e = n) es) + length (filter (\<lambda>e. snd e = n) es) =
        length (filter (\<lambda>e. fst e = n \<or> snd e = n) es) + length (filter (\<lambda>e. fst e = n \<and> snd e = n) es)"
    for es :: "(node \<times> node) list"
    by (induction es) auto
  then show ?thesis
    by (simp add: degree_of_def incident_edges_def self_loops_def del: of_nat_add add: of_nat_add [symmetric])
qed

lemma same_structure_same_sizes:
  assumes "node_ids G1 = node_ids G2" and "edge_list G1 = edge_list G2"
  shows "degree_of G2 = degree_of G1" and "spec_pixel_size G2 = spec_pixel_size G1"
proof -
  show d: "degree_of G2 = degree_of G1"
    using assms(2) by (simp add: fun_eq_iff degree_of_def)
  show "spec_pixel_size G2 = spec_pixel_size G1"
    using assms(1) d
    by (simp add: fun_eq_iff spec_pixel_size_def spec_range_def min_degree_def max_degree_def)
qed

text \<open>
  C3, as amended: the degree used for the size and shown in the hover text of a node is
  the number of edge ends at the node in the edge list, that is the number of its incident
  edges plus the number of its edges to itself; it is the number of incident edges for a
  node without an edge to itself. It is independent of every stored attribute: two graphs
  with the same nodes and edges, whatever their attributes, layouts and names, get the
  same sizes and the same degree in each hover text.
\<close>

theorem degree_is_live_count:
  assumes "create_plotly_graph layout1 float_repr name1 G1 = (Inr fig1, G1')"
    and "create_plotly_graph layout2 float_repr name2 G2 = (Inr fig2, G2')"
    and "node_ids G1 = node_ids G2" and "edge_list G1 = edge_list G2"
  shows "(\<forall>n. degree_of G1 n = incident_edges G1 n + self_loops G1 n) \<and>
         (\<forall>n. self_loops G1 n = 0 \<longrightarrow> degree_of G1 n = incident_edges G1 n) \<and>
         hovertext fig1 = map (\<lambda>n. hover_info float_repr n (degree_of G1 n) (community_of G1 n)) (node_ids G1) \<and>
         hovertext fig2 = map (\<lambda>n. hover_info float_repr n (degree_of G1 n) (community_of G2 n)) (node_ids G1) \<and>
         marker_size fig1 = map (spec_pixel_size G1) (node_ids G1) \<and>
         marker_size fig2 = marker_size fig1"
proof -
  obtain mn1 rg1 where db1: "degree_bounds (map (degree_of G1) (node_ids G1)) = Inr (mn1, rg1)"
    using degree_bounds_total by blast
  obtain mn2 rg2 where db2: "degree_bounds (map (degree_of G2) (node_ids G2)) = Inr (mn2, rg2)"
    using degree_bounds_total by blast
  note same = same_structure_same_sizes [OF assms(3,4)]
  have h1: "hovertext fig1 = map (\<lambda>n. hover_info float_repr n (degree_of G1 n) (community_of G1 n)) (node_ids G1)"
    by (rule create_plotly_graph_InrD(7) [OF assms(1) db1])
  have h2: "hovertext fig2 = map (\<lambda>n. hover_info float_repr n (degree_of G1 n) (community_of G2 n)) (node_ids G1)"
    using create_plotly_graph_InrD(7) [OF assms(2) db2] by (simp add: same assms(3))
  have s1: "marker_size fig1 = map (spec_pixel_size G1) (node_ids G1)"
    by (rule marker_size_spec [OF assms(1)])
  have s2: "marker_size fig2 = marker_size fig1"
    using marker_size_spec [OF assms(2)] by (simp add: s1 same assms(3))
  show ?thesis
    using h1 h2 s1 s2 by (simp add: degree_of_incident)
qed

text \<open>
  The two triangles differ in the stored attributes \<^verbatim>\<open>degree\<close> and \<^verbatim>\<open>centrality\<close> and
  are encoded alike.
\<close>

theorem degree_is_live_count_witness:
  "node_ids triangle = node_ids triangle_restored \<and>
   edge_list triangle = edge_list triangle_restored \<and>
   map_of (node_tbl triangle) ''a'' \<noteq> map_of (node_tbl triangle_restored) ''a'' \<and>
   degree_of triangle ''a'' = incident_edges triangle ''a'' \<and>
   hovertext triangle_figure =
     map (\<lambda>n. hover_info example_repr n (degree_of triangle n) (community_of triangle n)) (node_ids triangle) \<and>
   hovertext triangle_figure =
     map (\<lambda>n. hover_info example_repr n (degree_of triangle n) (community_of triangle_restored n))
       (node_ids triangle) \<and>
   marker_size triangle_figure = map (spec_pixel_size triangle) (node_ids triangle)"
proof -
  have ids: "node_ids triangle = node_ids triangle_restored"
    and edges: "edge_list triangle = edge_list triangle_restored"
    by (simp_all add: triangle_def triangle_restored_def node_ids_def)
  have differ: "map_of (node_tbl triangle) ''a'' \<noteq> map_of (node_tbl triangle_restored) ''a''"
  proof
    assume "map_of (node_tbl triangle) ''a'' = map_of (node_tbl triangle_restored) ''a''"
    then have "the (map_of (node_tbl triangle) ''a'') ''degree'' =
               the (map_of (node_tbl triangle_restored) ''a'') ''degree''"
      by simp
    then show False
      by (simp add: triangle_def triangle_restored_def)
  qed
  have loops: "self_loops triangle ''a'' = 0"
    by (simp add: self_loops_def triangle_def)
  note live = degree_is_live_count [OF triangle_run triangle_restored_run ids edges]
  from live loops have deg: "degree_of triangle ''a'' = incident_edges triangle ''a''"
    by blast
  from live have "hovertext triangle_figure =
      map (\<lambda>n. hover_info example_repr n (degree_of triangle n) (community_of triangle n)) (node_ids triangle)"
    and "hovertext triangle_figure =
      map (\<lambda>n. hover_info example_repr n (degree_of triangle n) (community_of triangle_restored n))
        (node_ids triangle)"
    and "marker_size triangle_figure = map (spec_pixel_size triangle) (node_ids triangle)"
    by blast+
  with ids edges differ deg show ?thesis
    by blast
qed

text \<open>
  C3 as stated fails for a node with an edge to itself: one edge touches the node, and
  the degree in its hover text is 2.
\<close>

theorem self_loop_counts_twice:
  "create_plotly_graph name_layout example_repr ''loop'' loop_graph = (Inr loop_figure, loop_graph) \<and>
   hovertext loop_figure = [''<b>a</b><br>Degree: 2<br>Community ID: 0''] \<and>
   incident_edges loop_graph ''a'' = 1 \<and>
   degree_of loop_graph ''a'' = 2 \<and>
   hovertext loop_figure \<noteq> [hover_info example_repr ''a'' (incident_edges loop_graph ''a'') (AInt 0)]"
proof -
  have one: "incident_edges loop_graph ''a'' = 1" and two: "degree_of loop_graph ''a'' = 2"
    by (simp_all add: incident_edges_def degree_of_def loop_graph_def)
  have "hover_info example_repr ''a'' 1 (AInt 0) = ''<b>a</b><br>Degree: 1<br>Community ID: 0''"
    by code_simp
  then show ?thesis
    using loop_run one two by (simp add: loop_figure_def)
qed

section \<open>Sizes between 10 and 50\<close>

lemma create_plotly_graph_returns:
  assumes "wf_graph G" and "layout_covers spring_layout G" and "colors_numeric G"
  shows "\<exists>fig. create_plotly_graph spring_layout float_repr network_name G = (Inr fig, G)"
proof -
  obtain mn rg where db: "degree_bounds (map (degree_of G) (node_ids G)) = Inr (mn, rg)"
    using degree_bounds_total by blast
  note edges = edge_loop_covered [OF assms(1,2)]
  from assms(3) obtain cmin cmax
    where cb: "color_bounds (map (community_of G) (node_ids G)) = Inr (cmin, cmax)"
    using color_bounds_total [of "map (community_of G) (node_ids G)"]
    by (auto simp add: colors_numeric_def)
  show ?thesis
    unfolding create_plotly_graph_eq [OF db]
    using assms(2) edges cb by (simp add: edge_loop_segments)
qed

lemma py_lt_error: "py_lt a b = Inl e \<Longrightarrow> e = TypeError"
  by (cases a; cases b) (auto split: if_splits)

lemma select_loop_error:
  assumes "\<And>a b e. cmp a b = Inl e \<Longrightarrow> e = TypeError"
  shows "select_loop cmp m xs = Inl e \<Longrightarrow> e = TypeError"
proof (induction xs arbitrary: m)
  case Nil
  then show ?case by simp
next
  case (Cons x xs)
  show ?case
  proof (cases "cmp x m")
    case (Inl e')
    with Cons.prems assms [OF Inl] show ?thesis by simp
  next
    case (Inr c)
    with Cons.prems have "select_loop cmp (if c then x else m) xs = Inl e"
      by simp
    then show ?thesis by (rule Cons.IH)
  qed
qed

lemma color_bounds_error:
  assumes "color_bounds cs = Inl e"
  shows "e = TypeError"
proof (cases cs)
  case Nil
  with assms show ?thesis by (simp add: color_bounds_def bindE_def)
next
  case (Cons c rest)
  have gt: "\<And>a b e. py_gt a b = Inl e \<Longrightarrow> e = TypeError"
    unfolding py_gt_def by (rule py_lt_error)
  from assms Cons have "select_loop py_lt c rest = Inl e \<or> select_loop py_gt c rest = Inl e"
    by (auto simp add: color_bounds_def bindE_def py_min_def py_max_def split: sum.splits)
  then show ?thesis
  proof
    assume "select_loop py_lt c rest = Inl e"
    then show ?thesis
    proof (rule select_loop_error [rotated])
      fix a b e'
      assume "py_lt a b = Inl e'"
      then show "e' = TypeError" by (rule py_lt_error)
    qed
  next
    assume "select_loop py_gt c rest = Inl e"
    then show ?thesis
    proof (rule select_loop_error [rotated])
      fix a b e'
      assume "py_gt a b = Inl e'"
      then show "e' = TypeError" by (rule gt)
    qed
  qed
qed

lemma create_plotly_graph_errors:
  assumes "fst (create_plotly_graph spring_layout float_repr network_name G) = Inl e"
  shows "e = KeyError \<or> e = TypeError"
proof -
  obtain mn rg where db: "degree_bounds (map (degree_of G) (node_ids G)) = Inr (mn, rg)"
    using degree_bounds_total by blast
  note eq = assms [unfolded create_plotly_graph_eq [OF db]]
  show ?thesis
  proof (cases "layout_covers spring_layout G")
    case False
    with eq show ?thesis by simp
  next
    case True
    show ?thesis
    proof (cases "edge_loop (layout_of spring_layout G) (edge_list G) ([], [])")
      case (Inl e')
      then have "e' = KeyError"
        by (simp add: edge_loop_segments split: if_splits)
      with eq True Inl show ?thesis by simp
    next
      case (Inr exy)
      obtain ex ey where exy: "exy = (ex, ey)" by (cases exy)
      show ?thesis
      proof (cases "color_bounds (map (community_of G) (node_ids G))")
        case (Inl e')
        from color_bounds_error [OF Inl] eq True Inr exy Inl show ?thesis by simp
      next
        case cb: (Inr cmm)
        obtain cmin cmax where "cmm = (cmin, cmax)" by (cases cmm)
        with eq True Inr exy cb show ?thesis by simp
      qed
    qed
  qed
qed

lemma degree_bounds_spec:
  "degree_bounds (map (degree_of G) (node_ids G)) =
     Inr (if node_ids G = [] then (0, 1) else (min_degree G, spec_range G))"
  by (simp add: degree_bounds_nodes) (simp add: degree_bounds_def)

text \<open>
  C2: the minimum degree and the range the encoder computes (lines 68 to 76) are the
  least degree over all nodes and the difference of the greatest and the least degree,
  1 when the difference is 0; the encoder never raises \<^verbatim>\<open>ZeroDivisionError\<close> or
  \<^verbatim>\<open>ValueError\<close>, and for a graph that networkx can hold, laid out with a position for
  every node, with numeric colour values, it returns a figure. In every figure it
  returns, the size of every node is \<open>10 + 40 * (degree - minDeg) / range\<close> as the
  specification words it; every size lies in the closed interval from 10 to 50; a node
  of minimum degree has size 10; a node of maximum degree has size 50 when the degree
  range is positive; and when all nodes have the same degree all sizes are 10.
\<close>

theorem pixel_size_normalised:
  "degree_bounds (map (degree_of G) (node_ids G)) =
     Inr (if node_ids G = [] then (0, 1) else (min_degree G, spec_range G)) \<and>
   fst (create_plotly_graph spring_layout float_repr network_name G) \<noteq> Inl ZeroDivisionError \<and>
   fst (create_plotly_graph spring_layout float_repr network_name G) \<noteq> Inl ValueError \<and>
   (wf_graph G \<and> layout_covers spring_layout G \<and> colors_numeric G \<longrightarrow>
      (\<exists>fig. create_plotly_graph spring_layout float_repr network_name G = (Inr fig, G) \<and>
             marker_size fig = map (spec_pixel_size G) (node_ids G) \<and>
             list_all (\<lambda>s. 10 \<le> s \<and> s \<le> 50) (marker_size fig))) \<and>
   (create_plotly_graph spring_layout float_repr network_name G = (Inr fig, G') \<longrightarrow>
      marker_size fig = map (spec_pixel_size G) (node_ids G) \<and>
      list_all (\<lambda>s. 10 \<le> s \<and> s \<le> 50) (marker_size fig) \<and>
      (\<forall>i < length (node_ids G).
         degree_of G (node_ids G ! i) = min_degree G \<longrightarrow> marker_size fig ! i = 10) \<and>
      (\<forall>i < length (node_ids G).
         0 < max_degree G - min_degree G \<and> degree_of G (node_ids G ! i) = max_degree G \<longrightarrow>
         marker_size fig ! i = 50) \<and>
      ((\<forall>n \<in> set (node_ids G). \<forall>m \<in> set (node_ids G). degree_of G n = degree_of G m) \<longrightarrow>
         list_all (\<lambda>s. s = 10) (marker_size fig)))"
proof -
  have bounds: "list_all (\<lambda>s. 10 \<le> s \<and> s \<le> 50) (map (spec_pixel_size G) (node_ids G))"
    unfolding list_all_iff using pixel_size_bounds [of _ G] by auto
  have safe: "fst (create_plotly_graph spring_layout float_repr network_name G) \<noteq> Inl ZeroDivisionError"
    "fst (create_plotly_graph spring_layout float_repr network_name G) \<noteq> Inl ValueError"
    using create_plotly_graph_errors [of spring_layout float_repr network_name G] by auto
  have total: "\<exists>fig. create_plotly_graph spring_layout float_repr network_name G = (Inr fig, G) \<and>
             marker_size fig = map (spec_pixel_size G) (node_ids G) \<and>
             list_all (\<lambda>s. 10 \<le> s \<and> s \<le> 50) (marker_size fig)"
    if "wf_graph G \<and> layout_covers spring_layout G \<and> colors_numeric G"
  proof -
    from that create_plotly_graph_returns [of G spring_layout float_repr network_name]
    obtain fig0 where run: "create_plotly_graph spring_layout float_repr network_name G = (Inr fig0, G)"
      by blast
    from marker_size_spec [OF run] bounds run show ?thesis
      by auto
  qed
  have sizes: "marker_size fig = map (spec_pixel_size G) (node_ids G) \<and>
      list_all (\<lambda>s. 10 \<le> s \<and> s \<le> 50) (marker_size fig) \<and>
      (\<forall>i < length (node_ids G).
         degree_of G (node_ids G ! i) = min_degree G \<longrightarrow> marker_size fig ! i = 10) \<and>
      (\<forall>i < length (node_ids G).
         0 < max_degree G - min_degree G \<and> degree_of G (node_ids G ! i) = max_degree G \<longrightarrow>
         marker_size fig ! i = 50) \<and>
      ((\<forall>n \<in> set (node_ids G). \<forall>m \<in> set (node_ids G). degree_of G n = degree_of G m) \<longrightarrow>
         list_all (\<lambda>s. s = 10) (marker_size fig))"
    if run: "create_plotly_graph spring_layout float_repr network_name G = (Inr fig, G')"
  proof (intro conjI allI impI)
    note ms = marker_size_spec [OF run]
    show "marker_size fig = map (spec_pixel_size G) (node_ids G)"
      by (rule ms)
    show "list_all (\<lambda>s. 10 \<le> s \<and> s \<le> 50) (marker_size fig)"
      unfolding ms by (rule bounds)
    show "marker_size fig ! i = 10"
      if "i < length (node_ids G)" and "degree_of G (node_ids G ! i) = min_degree G" for i
      using that by (simp only: ms nth_map pixel_size_min)
    show "marker_size fig ! i = 50"
      if "i < length (node_ids G)"
        and "0 < max_degree G - min_degree G \<and> degree_of G (node_ids G ! i) = max_degree G" for i
      using that by (simp only: ms nth_map pixel_size_max)
    show "list_all (\<lambda>s. s = 10) (marker_size fig)"
      if "\<forall>n \<in> set (node_ids G). \<forall>m \<in> set (node_ids G). degree_of G n = degree_of G m"
      unfolding ms list_all_iff using all_same_min [OF that] pixel_size_min [of G] by auto
  qed
  from degree_bounds_spec [of G] safe total sizes show ?thesis
    by blast
qed

text \<open>
  The star: the hub of degree 4 has size 50, the leaves of degree 1 have size 10. The
  triangle, where every node has degree 2: the range is 1 and every size is 10.
\<close>

theorem pixel_size_normalised_witness:
  "marker_size star_figure = map (spec_pixel_size star) (node_ids star) \<and>
   marker_size star_figure = [50, 10, 10, 10, 10] \<and>
   list_all (\<lambda>s. 10 \<le> s \<and> s \<le> 50) (marker_size star_figure) \<and>
   degree_of star ''hub'' = max_degree star \<and> degree_of star ''a'' = min_degree star \<and>
   0 < max_degree star - min_degree star \<and>
   marker_size star_figure ! 0 = 50 \<and> marker_size star_figure ! 1 = 10 \<and>
   degree_bounds (map (degree_of star) (node_ids star)) = Inr (1, 3) \<and>
   wf_graph triangle \<and> layout_covers name_layout triangle \<and> colors_numeric triangle \<and>
   max_degree triangle - min_degree triangle = 0 \<and>
   degree_bounds (map (degree_of triangle) (node_ids triangle)) = Inr (2, 1) \<and>
   (\<exists>fig. create_plotly_graph name_layout example_repr ''triangle'' triangle = (Inr fig, triangle) \<and>
          marker_size fig = map (spec_pixel_size triangle) (node_ids triangle)) \<and>
   marker_size triangle_figure = [10, 10, 10] \<and>
   list_all (\<lambda>s. s = 10) (marker_size triangle_figure)"
proof -
  have ids: "node_ids star = [''hub'', ''a'', ''b'', ''c'', ''d'']"
    by (simp add: star_def node_ids_def)
  have degs: "degree_of star ''hub'' = 4" "degree_of star ''a'' = 1" "degree_of star ''b'' = 1"
    "degree_of star ''c'' = 1" "degree_of star ''d'' = 1"
    by (simp_all add: star_def degree_of_def)
  have mn: "min_degree star = 1" and mx: "max_degree star = 4"
    by (simp_all add: min_degree_def max_degree_def ids degs)
  have rg: "spec_range star = 3"
    by (simp add: spec_range_def mn mx)
  note star_sizes = pixel_size_normalised [of star name_layout example_repr "''star''" star_figure star]
  from star_sizes star_run ids degs mn mx
  have part1: "marker_size star_figure = map (spec_pixel_size star) (node_ids star) \<and>
     marker_size star_figure = [50, 10, 10, 10, 10] \<and>
     list_all (\<lambda>s. 10 \<le> s \<and> s \<le> 50) (marker_size star_figure) \<and>
     degree_of star ''hub'' = max_degree star \<and> degree_of star ''a'' = min_degree star \<and>
     0 < max_degree star - min_degree star \<and>
     marker_size star_figure ! 0 = 50 \<and> marker_size star_figure ! 1 = 10"
    by (simp add: star_figure_def)
  from star_sizes ids mn rg
  have part2: "degree_bounds (map (degree_of star) (node_ids star)) = Inr (1, 3)"
    by simp
  have tids: "node_ids triangle = [''a'', ''b'', ''c'']"
    by (simp add: triangle_def node_ids_def)
  have tdegs: "degree_of triangle ''a'' = 2" "degree_of triangle ''b'' = 2" "degree_of triangle ''c'' = 2"
    by (simp_all add: triangle_def degree_of_def)
  have tmn: "min_degree triangle = 2" and tmx: "max_degree triangle = 2"
    by (simp_all add: min_degree_def max_degree_def tids tdegs)
  have trg: "spec_range triangle = 1"
    by (simp add: spec_range_def tmn tmx)
  have hyp: "wf_graph triangle \<and> layout_covers name_layout triangle \<and> colors_numeric triangle"
    by code_simp
  have same: "\<forall>n \<in> set (node_ids triangle). \<forall>m \<in> set (node_ids triangle).
      degree_of triangle n = degree_of triangle m"
    by (simp add: tids tdegs)
  note tri_sizes =
    pixel_size_normalised [of triangle name_layout example_repr "''triangle''" triangle_figure triangle]
  from tri_sizes tids tmn trg
  have part3: "degree_bounds (map (degree_of triangle) (node_ids triangle)) = Inr (2, 1)"
    by simp
  from tri_sizes hyp
  have part4: "\<exists>fig. create_plotly_graph name_layout example_repr ''triangle'' triangle = (Inr fig, triangle) \<and>
          marker_size fig = map (spec_pixel_size triangle) (node_ids triangle)"
    by blast
  from tri_sizes triangle_run same
  have part5: "list_all (\<lambda>s. s = 10) (marker_size triangle_figure)"
    by blast
  have part6: "marker_size triangle_figure = [10, 10, 10]"
    by (simp add: triangle_figure_def)
  have part7: "max_degree triangle - min_degree triangle = 0"
    by (simp add: tmn tmx)
  from part1 part2 part3 part4 part5 part6 part7 hyp show ?thesis
    by blast
qed

section \<open>The example folders\<close>

lemma example_listing:
  "graph_files [''a.graphml'', ''b.graphml'', ''notes.txt''] = [''a.graphml'', ''b.graphml'']"
  "graph_files [''notes.txt''] = []"
  "network_name_of ''a.graphml'' = ''a''"
  "network_name_of ''b.graphml'' = ''b''"
  "strip_extension ''a.graphml'' = ''a''"
  "strip_extension ''b.graphml'' = ''b''"
  "extension_only_at_end ''a.graphml''"
  "extension_only_at_end ''b.graphml''"
  "os_path_join ''data'' ''a.graphml'' = ''data/a.graphml''"
  "os_path_join ''data'' ''b.graphml'' = ''data/b.graphml''"
  by code_simp+

lemma example_folders:
  "os_listdir example_fs ''data'' = Inr [''a.graphml'', ''b.graphml'', ''notes.txt'']"
  "os_listdir example_fs ''empty'' = Inr [''notes.txt'']"
  "\<not> os_path_exists example_fs ''nowhere''"
  by (simp_all add: example_fs_def os_listdir_def os_path_exists_def)

lemma load_all_networks_keys:
  assumes "os_listdir fs p = Inr names"
  shows "\<exists>m out. load_all_networks fs rd fl p = (Inr (Some m), out) \<and>
           m = networks_dict (load_loop rd fl p names \<lparr>networks_dict = Map.empty, printed = []\<rparr>) \<and>
           out = printed (load_loop rd fl p names \<lparr>networks_dict = Map.empty, printed = []\<rparr>) \<and>
           dom m = set (map network_name_of (filter (parses rd p) (graph_files names)))"
  by (simp add: load_all_networks_dir [OF assms] load_loop_dom)

section \<open>A missing folder and an empty folder\<close>

text \<open>
  C5: the loader returns the sentinel \<^verbatim>\<open>None\<close> exactly when the path does not exist; for
  a directory without a file that ends in \<^verbatim>\<open>.graphml\<close> it returns the empty dict and
  prints nothing; and the sentinel differs from every dict, the empty one included.
\<close>

theorem not_found_sentinel:
  "(fst (load_all_networks fs read_graphml py_float folder_path) = Inr None) =
     (\<not> os_path_exists fs folder_path) \<and>
   (os_listdir fs folder_path = Inr filenames \<and> graph_files filenames = [] \<longrightarrow>
      load_all_networks fs read_graphml py_float folder_path = (Inr (Some Map.empty), [])) \<and>
   (Inr None :: py_error + (string \<rightharpoonup> nx_graph) option) \<noteq> Inr (Some networks)"
proof (intro conjI impI)
  show "(fst (load_all_networks fs read_graphml py_float folder_path) = Inr None) =
     (\<not> os_path_exists fs folder_path)"
    by (simp add: load_all_networks_def Let_def split: sum.split)
  show "(Inr None :: py_error + (string \<rightharpoonup> nx_graph) option) \<noteq> Inr (Some networks)"
    by simp
  assume dir: "os_listdir fs folder_path = Inr filenames \<and> graph_files filenames = []"
  then have none: "\<forall>g \<in> set (graph_files filenames). parses read_graphml folder_path g \<longrightarrow> network_name_of g \<noteq> k" for k
    by simp
  have quiet: "printed (load_loop read_graphml py_float folder_path names st) = printed st"
    if "graph_files names = []" for names st
    using that
  proof (induction names arbitrary: st)
    case Nil
    show ?case by simp
  next
    case (Cons f names)
    then have "\<not> py_endswith f ''.graphml''" and "graph_files names = []"
      by (simp_all add: graph_files_Cons split: if_splits)
    with Cons.IH show ?case
      by (simp add: load_loop_skip del: load_loop.simps)
  qed
  have "networks_dict (load_loop read_graphml py_float folder_path filenames
          \<lparr>networks_dict = Map.empty, printed = []\<rparr>) = Map.empty"
    using load_loop_other [OF none] by (simp add: fun_eq_iff)
  with dir quiet [of filenames] show "load_all_networks fs read_graphml py_float folder_path =
      (Inr (Some Map.empty), [])"
    by (simp add: load_all_networks_dir)
qed

text \<open>A path that does not exist, and a folder that holds only a text file.\<close>

theorem not_found_sentinel_witness:
  "fst (load_all_networks example_fs good_reader example_float ''nowhere'') = Inr None \<and>
   \<not> os_path_exists example_fs ''nowhere'' \<and>
   os_listdir example_fs ''empty'' = Inr [''notes.txt''] \<and>
   graph_files [''notes.txt''] = [] \<and>
   load_all_networks example_fs good_reader example_float ''empty'' = (Inr (Some Map.empty), [])"
proof -
  have missing: "\<not> os_path_exists example_fs ''nowhere''"
    by (rule example_folders(3))
  from not_found_sentinel [of example_fs good_reader example_float "''nowhere''"] missing
  have a: "fst (load_all_networks example_fs good_reader example_float ''nowhere'') = Inr None"
    by blast
  from not_found_sentinel [of example_fs good_reader example_float "''empty''" "[''notes.txt'']"]
    example_folders(2) example_listing(2)
  have b: "load_all_networks example_fs good_reader example_float ''empty'' = (Inr (Some Map.empty), [])"
    by blast
  from a b missing example_folders(2) example_listing(2) show ?thesis
    by blast
qed

section \<open>A file that fails to parse\<close>

lemma corrupt_parses:
  "parses corrupt_reader ''data'' ''a.graphml''"
  "\<not> parses corrupt_reader ''data'' ''b.graphml''"
  "corrupt_reader (os_path_join ''data'' ''b.graphml'') = Inl ''not well-formed''"
  by (simp_all add: parses_def corrupt_reader_def example_listing)

text \<open>
  C6: a parse error of one file is not propagated. For every directory the loader returns
  a dict, whatever files fail to parse; its keys are exactly the keys of the graph files
  that parse, so every file that parses is present, and a file that fails is absent (no
  entry comes from it: its key is in the dict only when a file that parses has the same
  key); and a line naming the file and the error is printed.
\<close>

theorem parse_failure_skipped:
  assumes "os_listdir fs folder_path = Inr filenames"
  shows "\<exists>m out. load_all_networks fs read_graphml py_float folder_path = (Inr (Some m), out) \<and>
           dom m = set (map network_name_of (filter (parses read_graphml folder_path) (graph_files filenames))) \<and>
           (\<forall>f \<in> set (graph_files filenames).
              parses read_graphml folder_path f \<longrightarrow> network_name_of f \<in> dom m) \<and>
           (\<forall>f \<in> set (graph_files filenames).
              \<not> parses read_graphml folder_path f \<and>
              (\<forall>g \<in> set (graph_files filenames).
                 parses read_graphml folder_path g \<longrightarrow> network_name_of g \<noteq> network_name_of f) \<longrightarrow>
              network_name_of f \<notin> dom m) \<and>
           (\<forall>f \<in> set (graph_files filenames). \<forall>msg.
              read_graphml (os_path_join folder_path f) = Inl msg \<longrightarrow>
              ''Error loading '' @ f @ '': '' @ msg \<in> set out)"
proof -
  from load_all_networks_keys [OF assms, of read_graphml py_float]
  obtain m out where run: "load_all_networks fs read_graphml py_float folder_path = (Inr (Some m), out)"
    and out: "out = printed (load_loop read_graphml py_float folder_path filenames
                \<lparr>networks_dict = Map.empty, printed = []\<rparr>)"
    and dom: "dom m = set (map network_name_of (filter (parses read_graphml folder_path) (graph_files filenames)))"
    by blast
  have present: "\<forall>f \<in> set (graph_files filenames).
      parses read_graphml folder_path f \<longrightarrow> network_name_of f \<in> dom m"
    unfolding dom by auto
  have absent: "\<forall>f \<in> set (graph_files filenames).
      \<not> parses read_graphml folder_path f \<and>
      (\<forall>g \<in> set (graph_files filenames).
         parses read_graphml folder_path g \<longrightarrow> network_name_of g \<noteq> network_name_of f) \<longrightarrow>
      network_name_of f \<notin> dom m"
    unfolding dom by auto
  have logged: "\<forall>f \<in> set (graph_files filenames). \<forall>msg.
      read_graphml (os_path_join folder_path f) = Inl msg \<longrightarrow>
      ''Error loading '' @ f @ '': '' @ msg \<in> set out"
    unfolding out using load_loop_printed [where rd = read_graphml] by blast
  from run dom present absent logged show ?thesis
    by blast
qed

text \<open>The folder in which \<^verbatim>\<open>b.graphml\<close> is corrupt: \<^verbatim>\<open>a\<close> is loaded, \<^verbatim>\<open>b\<close> is not.\<close>

theorem parse_failure_skipped_witness:
  "\<exists>m out. load_all_networks example_fs corrupt_reader example_float ''data'' = (Inr (Some m), out) \<and>
     dom m = {''a''} \<and> ''a'' \<in> dom m \<and> ''b'' \<notin> dom m \<and>
     ''Error loading b.graphml: not well-formed'' \<in> set out"
proof -
  from parse_failure_skipped [OF example_folders(1), of corrupt_reader example_float]
  obtain m out where run: "load_all_networks example_fs corrupt_reader example_float ''data'' = (Inr (Some m), out)"
    and dom: "dom m = set (map network_name_of (filter (parses corrupt_reader ''data'')
                (graph_files [''a.graphml'', ''b.graphml'', ''notes.txt''])))"
    and logged: "\<forall>f \<in> set (graph_files [''a.graphml'', ''b.graphml'', ''notes.txt'']). \<forall>msg.
      corrupt_reader (os_path_join ''data'' f) = Inl msg \<longrightarrow>
      ''Error loading '' @ f @ '': '' @ msg \<in> set out"
    by blast
  from dom have keys: "dom m = {''a''}"
    by (simp add: example_listing corrupt_parses)
  from logged corrupt_parses(3) have "''Error loading '' @ ''b.graphml'' @ '': '' @ ''not well-formed'' \<in> set out"
    by (simp add: example_listing)
  then have line: "''Error loading b.graphml: not well-formed'' \<in> set out"
    by simp
  from run keys line show ?thesis
    by auto
qed

section \<open>The keys of the result\<close>

lemma good_parses: "parses good_reader p f"
  by (simp add: parses_def good_reader_def)

text \<open>
  C4, as amended: for every existing directory in which the names of the graph files
  contain \<^verbatim>\<open>.graphml\<close> only as their ending, the keys of the result are exactly the names,
  with the extension stripped, of the files that end in \<^verbatim>\<open>.graphml\<close> and parse; there is
  one key per such file; a file that does not end in the extension, or does not parse,
  contributes no key.
\<close>

theorem keys_are_stripped_names:
  assumes "os_listdir fs folder_path = Inr filenames"
    and "list_all extension_only_at_end (graph_files filenames)"
  shows "\<exists>m out. load_all_networks fs read_graphml py_float folder_path = (Inr (Some m), out) \<and>
           dom m = set (map strip_extension (filter (parses read_graphml folder_path) (graph_files filenames))) \<and>
           (distinct filenames \<longrightarrow>
              card (dom m) = length (filter (parses read_graphml folder_path) (graph_files filenames)))"
proof -
  let ?files = "filter (parses read_graphml folder_path) (graph_files filenames)"
  from load_all_networks_keys [OF assms(1), of read_graphml py_float]
  obtain m out where run: "load_all_networks fs read_graphml py_float folder_path = (Inr (Some m), out)"
    and dom: "dom m = set (map network_name_of ?files)"
    by blast
  have strip: "network_name_of f = strip_extension f" if "f \<in> set ?files" for f
    using that assms(2) by (simp add: list_all_iff network_name_of_strip)
  then have "map network_name_of ?files = map strip_extension ?files"
    by simp
  with dom have keys: "dom m = set (map strip_extension ?files)"
    by simp
  have "card (dom m) = length ?files" if "distinct filenames"
  proof -
    have "inj_on strip_extension (set ?files)"
    proof (rule inj_onI)
      fix f g
      assume "f \<in> set ?files" and "g \<in> set ?files" and "strip_extension f = strip_extension g"
      then show "f = g"
        using strip_extension_inj [of f g] by (simp add: graph_files_def)
    qed
    moreover from that have "distinct ?files"
      by (simp add: graph_files_def)
    ultimately have "distinct (map strip_extension ?files)"
      by (simp add: distinct_map)
    then show ?thesis
      using distinct_card [of "map strip_extension ?files"] by (simp only: keys length_map)
  qed
  with run keys show ?thesis
    by blast
qed

text \<open>
  The folder with \<^verbatim>\<open>a.graphml\<close>, \<^verbatim>\<open>b.graphml\<close> and \<^verbatim>\<open>notes.txt\<close>, all readable: the keys
  are \<^verbatim>\<open>a\<close> and \<^verbatim>\<open>b\<close>.
\<close>

theorem keys_are_stripped_names_witness:
  "\<exists>m out. load_all_networks example_fs good_reader example_float ''data'' = (Inr (Some m), out) \<and>
     dom m = {''a'', ''b''} \<and> card (dom m) = 2"
proof -
  have ends: "list_all extension_only_at_end (graph_files [''a.graphml'', ''b.graphml'', ''notes.txt''])"
    by (simp add: example_listing)
  from keys_are_stripped_names [OF example_folders(1) ends, of good_reader example_float]
  obtain m out where run: "load_all_networks example_fs good_reader example_float ''data'' = (Inr (Some m), out)"
    and dom: "dom m = set (map strip_extension (filter (parses good_reader ''data'')
                (graph_files [''a.graphml'', ''b.graphml'', ''notes.txt''])))"
    and card: "distinct [''a.graphml'', ''b.graphml'', ''notes.txt''] \<longrightarrow>
       card (dom m) = length (filter (parses good_reader ''data'')
                (graph_files [''a.graphml'', ''b.graphml'', ''notes.txt'']))"
    by blast
  from dom have keys: "dom m = {''a'', ''b''}"
    by (simp add: example_listing good_parses)
  have "distinct [''a.graphml'', ''b.graphml'', ''notes.txt'']"
    by simp
  with card have "card (dom m) = 2"
    by (simp add: example_listing good_parses)
  with run keys show ?thesis
    by blast
qed

text \<open>
  C4 as stated fails: in the same folder with \<^verbatim>\<open>b.graphml\<close> corrupt, two names end in
  the extension and the result has the one key \<^verbatim>\<open>a\<close>.
\<close>

theorem corrupt_file_has_no_key:
  "(case fst (load_all_networks example_fs corrupt_reader example_float ''data'') of
      Inr (Some m) \<Rightarrow> dom m = {''a''}
    | _ \<Rightarrow> False) \<and>
   set (map strip_extension (graph_files [''a.graphml'', ''b.graphml'', ''notes.txt''])) = {''a'', ''b''} \<and>
   os_listdir example_fs ''data'' = Inr [''a.graphml'', ''b.graphml'', ''notes.txt'']"
proof -
  from load_all_networks_keys [OF example_folders(1), of corrupt_reader example_float]
  obtain m out where run: "load_all_networks example_fs corrupt_reader example_float ''data'' = (Inr (Some m), out)"
    and dom: "dom m = set (map network_name_of (filter (parses corrupt_reader ''data'')
                (graph_files [''a.graphml'', ''b.graphml'', ''notes.txt''])))"
    by blast
  from dom have "dom m = {''a''}"
    by (simp add: example_listing corrupt_parses)
  with run example_folders(1) show ?thesis
    by (simp add: example_listing)
qed

section \<open>Sizes stored as strings\<close>

lemma clean_attributes_nodes:
  "node_ids (clean_attributes fl G) = node_ids G"
  "edge_list (clean_attributes fl G) = edge_list G"
  "length (node_tbl (clean_attributes fl G)) = length (node_tbl G)"
  "i < length (node_tbl G) \<Longrightarrow>
     snd (node_tbl (clean_attributes fl G) ! i) = clean_size fl (snd (node_tbl G ! i))"
  by (simp_all add: clean_attributes_def node_ids_def split_def comp_def)

lemma clean_size_parsed:
  "d ''size'' = Some (AStr s) \<Longrightarrow> fl s = Some r \<Longrightarrow> clean_size fl d = d(''size'' \<mapsto> AFloat r)"
  by (simp add: clean_size_def)

lemma clean_size_unparsed:
  "d ''size'' = Some (AStr s) \<Longrightarrow> fl s = None \<Longrightarrow> clean_size fl d = d"
  by (simp add: clean_size_def)

lemma clean_size_other:
  "\<forall>s. d ''size'' \<noteq> Some (AStr s) \<Longrightarrow> clean_size fl d = d"
  by (auto simp add: clean_size_def split: option.splits attr_val.splits)

text \<open>
  C7: for a graph file that parses (and whose key no other parsed file of the listing
  shares), the result holds the graph under the key of the file, with the same nodes and
  edges, and for every node: a \<^verbatim>\<open>size\<close> stored as a string that \<^verbatim>\<open>float\<close> parses becomes
  that number; a \<^verbatim>\<open>size\<close> stored as a string that does not parse leaves the attributes
  unchanged, and no error reaches the caller; a \<^verbatim>\<open>size\<close> that is no string, or is
  missing, leaves the attributes unchanged.
\<close>

theorem size_coercion:
  assumes "os_listdir fs folder_path = Inr filenames"
    and "f \<in> set (graph_files filenames)"
    and "read_graphml (os_path_join folder_path f) = Inr G"
    and "\<forall>g \<in> set (graph_files filenames).
           parses read_graphml folder_path g \<and> network_name_of g = network_name_of f \<longrightarrow> g = f"
  shows "\<exists>m out G'. load_all_networks fs read_graphml py_float folder_path = (Inr (Some m), out) \<and>
           m (network_name_of f) = Some G' \<and>
           node_ids G' = node_ids G \<and> edge_list G' = edge_list G \<and>
           (\<forall>i < length (node_tbl G).
              (\<forall>s r. snd (node_tbl G ! i) ''size'' = Some (AStr s) \<and> py_float s = Some r \<longrightarrow>
                 snd (node_tbl G' ! i) = (snd (node_tbl G ! i))(''size'' \<mapsto> AFloat r)) \<and>
              (\<forall>s. snd (node_tbl G ! i) ''size'' = Some (AStr s) \<and> py_float s = None \<longrightarrow>
                 snd (node_tbl G' ! i) = snd (node_tbl G ! i)) \<and>
              ((\<forall>s. snd (node_tbl G ! i) ''size'' \<noteq> Some (AStr s)) \<longrightarrow>
                 snd (node_tbl G' ! i) = snd (node_tbl G ! i)))"
proof -
  let ?G' = "clean_attributes py_float G"
  from load_all_networks_keys [OF assms(1), of read_graphml py_float]
  obtain m out where run: "load_all_networks fs read_graphml py_float folder_path = (Inr (Some m), out)"
    and m: "m = networks_dict (load_loop read_graphml py_float folder_path filenames
                \<lparr>networks_dict = Map.empty, printed = []\<rparr>)"
    by blast
  have stored: "m (network_name_of f) = Some ?G'"
    unfolding m by (rule load_loop_value [where rd = read_graphml, OF assms(2,3,4)])
  have "\<forall>i < length (node_tbl G).
              (\<forall>s r. snd (node_tbl G ! i) ''size'' = Some (AStr s) \<and> py_float s = Some r \<longrightarrow>
                 snd (node_tbl ?G' ! i) = (snd (node_tbl G ! i))(''size'' \<mapsto> AFloat r)) \<and>
              (\<forall>s. snd (node_tbl G ! i) ''size'' = Some (AStr s) \<and> py_float s = None \<longrightarrow>
                 snd (node_tbl ?G' ! i) = snd (node_tbl G ! i)) \<and>
              ((\<forall>s. snd (node_tbl G ! i) ''size'' \<noteq> Some (AStr s)) \<longrightarrow>
                 snd (node_tbl ?G' ! i) = snd (node_tbl G ! i))"
  proof (intro allI impI conjI)
    fix i s r
    assume "i < length (node_tbl G)"
      and "snd (node_tbl G ! i) ''size'' = Some (AStr s) \<and> py_float s = Some r"
    then show "snd (node_tbl ?G' ! i) = (snd (node_tbl G ! i))(''size'' \<mapsto> AFloat r)"
      by (simp add: clean_attributes_nodes(4) clean_size_parsed)
  next
    fix i s
    assume "i < length (node_tbl G)"
      and "snd (node_tbl G ! i) ''size'' = Some (AStr s) \<and> py_float s = None"
    then show "snd (node_tbl ?G' ! i) = snd (node_tbl G ! i)"
      by (simp add: clean_attributes_nodes(4) clean_size_unparsed)
  next
    fix i
    assume "i < length (node_tbl G)"
      and "\<forall>s. snd (node_tbl G ! i) ''size'' \<noteq> Some (AStr s)"
    then show "snd (node_tbl ?G' ! i) = snd (node_tbl G ! i)"
      by (simp add: clean_attributes_nodes(4) clean_size_other)
  qed
  with run stored clean_attributes_nodes(1,2) [of py_float G] show ?thesis
    by blast
qed

text \<open>
  The graph with the sizes \<^verbatim>\<open>'3'\<close>, \<^verbatim>\<open>'big'\<close>, 4 and none: the first becomes 3.0, the others
  stay.
\<close>

theorem size_coercion_witness:
  "\<exists>m out G'. load_all_networks example_fs good_reader example_float ''data'' = (Inr (Some m), out) \<and>
     m ''a'' = Some G' \<and>
     node_ids G' = [''n1'', ''n2'', ''n3'', ''n4''] \<and>
     snd (node_tbl sized_graph ! 0) ''size'' = Some (AStr ''3'') \<and>
     snd (node_tbl G' ! 0) ''size'' = Some (AFloat 3) \<and>
     snd (node_tbl sized_graph ! 1) ''size'' = Some (AStr ''big'') \<and>
     snd (node_tbl G' ! 1) ''size'' = Some (AStr ''big'') \<and>
     snd (node_tbl G' ! 2) ''size'' = Some (AInt 4) \<and>
     snd (node_tbl G' ! 3) ''size'' = None"
proof -
  have mem: "''a.graphml'' \<in> set (graph_files [''a.graphml'', ''b.graphml'', ''notes.txt''])"
    by (simp add: example_listing)
  have rd: "good_reader (os_path_join ''data'' ''a.graphml'') = Inr sized_graph"
    by (simp add: good_reader_def)
  have uniq: "\<forall>g \<in> set (graph_files [''a.graphml'', ''b.graphml'', ''notes.txt'']).
      parses good_reader ''data'' g \<and> network_name_of g = network_name_of ''a.graphml'' \<longrightarrow> g = ''a.graphml''"
    by (simp add: example_listing)
  from size_coercion [OF example_folders(1) mem rd uniq, of example_float]
  obtain m out G' where run: "load_all_networks example_fs good_reader example_float ''data'' = (Inr (Some m), out)"
    and stored: "m (network_name_of ''a.graphml'') = Some G'"
    and ids: "node_ids G' = node_ids sized_graph"
    and attrs: "\<forall>i < length (node_tbl sized_graph).
              (\<forall>s r. snd (node_tbl sized_graph ! i) ''size'' = Some (AStr s) \<and> example_float s = Some r \<longrightarrow>
                 snd (node_tbl G' ! i) = (snd (node_tbl sized_graph ! i))(''size'' \<mapsto> AFloat r)) \<and>
              (\<forall>s. snd (node_tbl sized_graph ! i) ''size'' = Some (AStr s) \<and> example_float s = None \<longrightarrow>
                 snd (node_tbl G' ! i) = snd (node_tbl sized_graph ! i)) \<and>
              ((\<forall>s. snd (node_tbl sized_graph ! i) ''size'' \<noteq> Some (AStr s)) \<longrightarrow>
                 snd (node_tbl G' ! i) = snd (node_tbl sized_graph ! i))"
    by blast
  have len: "length (node_tbl sized_graph) = 4"
    by (simp add: sized_graph_def)
  have s0: "snd (node_tbl sized_graph ! 0) ''size'' = Some (AStr ''3'')"
    and s1: "snd (node_tbl sized_graph ! 1) ''size'' = Some (AStr ''big'')"
    and s2: "snd (node_tbl sized_graph ! 2) ''size'' = Some (AInt 4)"
    and s3: "snd (node_tbl sized_graph ! 3) ''size'' = None"
    by (simp_all add: sized_graph_def)
  have f0: "example_float ''3'' = Some 3" and f1: "example_float ''big'' = None"
    by (simp_all add: example_float_def)
  from attrs len s0 f0 have "snd (node_tbl G' ! 0) = (snd (node_tbl sized_graph ! 0))(''size'' \<mapsto> AFloat 3)"
    by (metis zero_less_numeral)
  then have a0: "snd (node_tbl G' ! 0) ''size'' = Some (AFloat 3)"
    by simp
  from attrs len s1 f1 have "snd (node_tbl G' ! 1) = snd (node_tbl sized_graph ! 1)"
    by (metis one_less_numeral_iff semiring_norm(76))
  with s1 have a1: "snd (node_tbl G' ! 1) ''size'' = Some (AStr ''big'')"
    by simp
  have "2 < length (node_tbl sized_graph)" "\<forall>s. snd (node_tbl sized_graph ! 2) ''size'' \<noteq> Some (AStr s)"
    by (simp_all add: len s2)
  with attrs have "snd (node_tbl G' ! 2) = snd (node_tbl sized_graph ! 2)"
    by blast
  with s2 have a2: "snd (node_tbl G' ! 2) ''size'' = Some (AInt 4)"
    by simp
  have "3 < length (node_tbl sized_graph)" "\<forall>s. snd (node_tbl sized_graph ! 3) ''size'' \<noteq> Some (AStr s)"
    by (simp_all add: len s3)
  with attrs have "snd (node_tbl G' ! 3) = snd (node_tbl sized_graph ! 3)"
    by blast
  with s3 have a3: "snd (node_tbl G' ! 3) ''size'' = None"
    by simp
  have names: "node_ids sized_graph = [''n1'', ''n2'', ''n3'', ''n4'']"
    by (simp add: sized_graph_def node_ids_def)
  from run stored ids names s0 s1 a0 a1 a2 a3 show ?thesis
    by (simp add: example_listing)
qed

end
